theory Spec2Isabelle
  imports Complex_Main
begin

section \<open>The OpenCode server process manager\<close>

text \<open>
  The module keeps one module-level slot \<open>server\<close>, spawns the \<open>opencode serve\<close>
  subprocess, waits until it answers on its port, and restarts it from the subprocess's
  exit handler. The embedding follows the TypeScript function by function:
  \<open>getOpenPort\<close>, \<open>waitForServer\<close>, \<open>startServer\<close>, \<open>getServer\<close>, \<open>stopServer\<close>.

  \<open>startServer\<close> is an async function with two suspension points,
  \<open>await getOpenPort()\<close> and \<open>await waitForServer(port)\<close>. It is cut at these two points
  into three segments, each of which runs without interruption on the JavaScript event
  loop; \<open>step\<close> is the event loop that runs one segment (or one handler) per event, and
  \<open>startServer\<close> is the three segments run back to back.
\<close>

subsection \<open>JavaScript values and the surrounding runtime\<close>

text \<open>A JavaScript number: a finite value (the double read as a rational), an infinity or NaN.\<close>

datatype number = NaN | Infinity | NegInfinity | Finite rat

text \<open>
  \<open>parsedPort && !Number.isNaN(parsedPort)\<close>: a number is falsy when it is NaN or zero.
\<close>

definition isNaN :: "number \<Rightarrow> bool" where
  "isNaN n = (n = NaN)"

definition truthy :: "number \<Rightarrow> bool" where
  "truthy n = (n \<noteq> NaN \<and> n \<noteq> Finite 0)"

text \<open>
  What the module reads from its surroundings and the built-ins it calls, taken as
  parameters: \<open>Number(string)\<close>, the conversion of a number to a string
  (\<open>port.toString()\<close> and template literals), \<open>process.env\<close>, and whether
  \<open>fs.accessSync(directory, R_OK | X_OK)\<close> returns normally.
\<close>

record runtime =
  Number :: "string \<Rightarrow> number"
  toString :: "number \<Rightarrow> string"
  env :: "string \<rightharpoonup> string"
  accessSync :: "string \<Rightarrow> bool"

text \<open>
  A thrown value: \<open>new Error(message)\<close>, or the error object of the operating system
  that \<open>srv.on("error", reject)\<close> hands through unchanged.
\<close>

datatype error = Error string | SystemError string

subsection \<open>The injected configuration and JSON.stringify\<close>

datatype json = JString string | JBool bool | JObject "(string \<times> json) list"

definition escape_char :: "char \<Rightarrow> string" where
  "escape_char c =
     (if c = CHR 0x22 then [CHR 0x5C, CHR 0x22]
      else if c = CHR 0x5C then [CHR 0x5C, CHR 0x5C]
      else [c])"

definition quote :: "string \<Rightarrow> string" where
  "quote s = [CHR 0x22] @ concat (map escape_char s) @ [CHR 0x22]"

fun stringify :: "json \<Rightarrow> string"
  and stringify_members :: "(string \<times> json) list \<Rightarrow> string" where
  "stringify (JString s) = quote s"
| "stringify (JBool b) = (if b then ''true'' else ''false'')"
| "stringify (JObject kvs) = ''{'' @ stringify_members kvs @ ''}''"
| "stringify_members [] = []"
| "stringify_members [(k, v)] = quote k @ '':'' @ stringify v"
| "stringify_members ((k, v) # m # ms) =
     quote k @ '':'' @ stringify v @ '','' @ stringify_members (m # ms)"

text \<open>The object literal passed to \<open>JSON.stringify\<close> in \<open>startServer\<close>.\<close>

definition opencode_config :: json where
  "opencode_config = JObject
     [(''$schema'', JString ''https://opencode.ai/config.json''),
      (''lsp'', JBool False),
      (''formatter'', JBool False),
      (''permission'', JObject
         [(''edit'', JString ''allow''),
          (''bash'', JString ''allow''),
          (''webfetch'', JString ''allow'')])]"

subsection \<open>Objects and module state\<close>

text \<open>
  A \<open>ChildProcess\<close> object as \<open>spawn\<close> made it. \<open>killed\<close> is Node's flag, set
  by \<open>kill()\<close>; \<open>exited\<close> records that the exit event has been delivered.
\<close>

record ChildProcess =
  spawnfile :: string
  spawnargs :: "string list"
  cwd :: string
  spawn_env :: "string \<rightharpoonup> string"
  killed :: bool
  exited :: bool

text \<open>
  \<open>OpenCodeServer\<close>. \<open>process\<close> is a reference: the handle of the child in the store
  \<open>procs\<close>. The two clients are represented by the base URL they are bound to.
\<close>

record OpenCodeServer =
  process :: nat
  client :: string
  clientV2 :: string
  port :: number
  directory :: string

datatype fetch_outcome = Response nat | Rejected

text \<open>What the module does to the outside, in order.\<close>

datatype effect =
    Log string string
  | Access string
  | NetListen
  | NetClose
  | Spawn nat
  | Fetch string nat fetch_outcome
  | Sleep nat
  | Kill nat
  | Settle nat "error + OpenCodeServer"

text \<open>An unfinished \<open>startServer\<close> call, parked at one of its two awaits.\<close>

datatype phase = AwaitPort | AwaitReady number nat

record task =
  t_directory :: string
  t_detached :: bool
  t_phase :: phase

text \<open>
  \<open>server\<close> is the module-level slot. \<open>sockets\<close> counts the listening sockets that
  \<open>getOpenPort\<close> holds open. \<open>trace\<close> is the history of effects.
\<close>

record state =
  server :: "OpenCodeServer option"
  procs :: "nat \<rightharpoonup> ChildProcess"
  next_pid :: nat
  sockets :: nat
  tasks :: "nat \<rightharpoonup> task"
  next_tid :: nat
  trace :: "effect list"

definition init_state :: state where
  "init_state = \<lparr>server = None, procs = Map.empty, next_pid = 0, sockets = 0,
                 tasks = Map.empty, next_tid = 0, trace = []\<rparr>"

definition emit :: "effect list \<Rightarrow> state \<Rightarrow> state" where
  "emit es s = s\<lparr>trace := trace s @ es\<rparr>"

definition log :: "string \<Rightarrow> string \<Rightarrow> state \<Rightarrow> state" where
  "log lvl msg s = emit [Log lvl msg] s"

subsection \<open>getOpenPort\<close>

text \<open>
  What the operating system answers to \<open>srv.listen(0, ...)\<close>: the error event, or the
  listening callback, where \<open>srv.address()\<close> is an object with a port, a string or null.
  The body of the promise and the callback that settles it touch nothing but the socket,
  so they are run here in one piece, at the time the answer arrives; \<open>srv.close\<close> is
  called in the first branch of the callback only.
\<close>

datatype address = AddressInfo number | AddressPath string | AddressNull

datatype listen_outcome = Listening address | ListenError string

definition getOpenPort :: "listen_outcome \<Rightarrow> state \<Rightarrow> (error + number) \<times> state" where
  "getOpenPort os s =
     (let s1 = emit [NetListen] s in
      case os of
        ListenError e \<Rightarrow> (Inl (SystemError e), s1)
      | Listening a \<Rightarrow>
          (let s2 = s1\<lparr>sockets := sockets s1 + 1\<rparr> in
           case a of
             AddressInfo p \<Rightarrow> (Inr p, (emit [NetClose] s2)\<lparr>sockets := sockets s2 - 1\<rparr>)
           | AddressPath _ \<Rightarrow> (Inl (Error ''Failed to get port''), s2)
           | AddressNull \<Rightarrow> (Inl (Error ''Failed to get port''), s2)))"

subsection \<open>waitForServer\<close>

definition session_url :: "runtime \<Rightarrow> number \<Rightarrow> string" where
  "session_url w p = ''http://127.0.0.1:'' @ toString w p @ ''/session''"

definition timeout_message :: "runtime \<Rightarrow> number \<Rightarrow> nat \<Rightarrow> string" where
  "timeout_message w p maxAttempts =
     ''Server did not start on port '' @ toString w p @ '' after ''
       @ toString w (Finite (of_nat maxAttempts)) @ '' seconds''"

definition status_ok :: "fetch_outcome \<Rightarrow> bool" where
  "status_ok r = (case r of Response st \<Rightarrow> st < 500 | Rejected \<Rightarrow> False)"

text \<open>
  The \<open>for\<close> loop from index \<open>i\<close> on. \<open>net i\<close> is what the \<open>i\<close>-th fetch meets:
  a response with its status, or a rejection (no listener, or the 2000 ms abort signal).
\<close>

function waitForServer_from ::
  "runtime \<Rightarrow> number \<Rightarrow> nat \<Rightarrow> (nat \<Rightarrow> fetch_outcome) \<Rightarrow> nat \<Rightarrow> (error + bool) \<times> effect list" where
  "waitForServer_from w p maxAttempts net i =
     (if i < maxAttempts then
        (if status_ok (net i) then (Inr True, [Fetch (session_url w p) 2000 (net i)])
         else apsnd (\<lambda>es. Fetch (session_url w p) 2000 (net i) # Sleep 1000 # es)
                (waitForServer_from w p maxAttempts net (Suc i)))
      else (Inl (Error (timeout_message w p maxAttempts)), []))"
  by pat_completeness auto
termination
  by (relation "measure (\<lambda>(w, p, maxAttempts, net, i). maxAttempts - i)") auto

declare waitForServer_from.simps [simp del]

definition waitForServer ::
  "runtime \<Rightarrow> number \<Rightarrow> nat \<Rightarrow> (nat \<Rightarrow> fetch_outcome) \<Rightarrow> (error + bool) \<times> effect list" where
  "waitForServer w p maxAttempts net = waitForServer_from w p maxAttempts net 0"

subsection \<open>startServer\<close>

text \<open>\<open>server && !server.process.killed\<close>, the flag read through the process handle.\<close>

definition process_killed :: "state \<Rightarrow> nat \<Rightarrow> bool" where
  "process_killed s pid = (case procs s pid of Some c \<Rightarrow> killed c | None \<Rightarrow> False)"

definition reusable :: "state \<Rightarrow> OpenCodeServer option" where
  "reusable s =
     (case server s of
        Some srv \<Rightarrow> if \<not> process_killed s (process srv) then Some srv else None
      | None \<Rightarrow> None)"

text \<open>
  \<open>envPort ? Number(envPort) : null\<close> and then
  \<open>parsedPort && !Number.isNaN(parsedPort) ? parsedPort : await getOpenPort()\<close>:
  \<open>Some\<close> the port that is used without allocation, \<open>None\<close> when a port is allocated.
\<close>

definition parsedPort :: "runtime \<Rightarrow> number option" where
  "parsedPort w =
     (case env w ''OPENCODE_PORT'' of
        Some envPort \<Rightarrow> if envPort \<noteq> [] then Some (Number w envPort) else None
      | None \<Rightarrow> None)"

definition env_port :: "runtime \<Rightarrow> number option" where
  "env_port w =
     (case parsedPort w of
        Some n \<Rightarrow> if truthy n \<and> \<not> isNaN n then Some n else None
      | None \<Rightarrow> None)"

text \<open>
  \<open>process.env.OPENCODE_PATH || `${process.env.HOME}/.opencode/bin/opencode`\<close>; an
  undefined \<open>HOME\<close> prints as \<open>undefined\<close> in the template literal.
\<close>

definition default_opencodePath :: "runtime \<Rightarrow> string" where
  "default_opencodePath w =
     (case env w ''HOME'' of Some h \<Rightarrow> h | None \<Rightarrow> ''undefined'') @ ''/.opencode/bin/opencode''"

definition opencodePath :: "runtime \<Rightarrow> string" where
  "opencodePath w =
     (case env w ''OPENCODE_PATH'' of
        Some p \<Rightarrow> if p \<noteq> [] then p else default_opencodePath w
      | None \<Rightarrow> default_opencodePath w)"

definition spawned_child :: "runtime \<Rightarrow> string \<Rightarrow> number \<Rightarrow> ChildProcess" where
  "spawned_child w dir p =
     \<lparr>spawnfile = opencodePath w,
      spawnargs = [''serve'', ''--port'', toString w p],
      cwd = dir,
      spawn_env = (env w)(''OPENCODE_CONFIG_CONTENT'' \<mapsto> stringify opencode_config),
      killed = False,
      exited = False\<rparr>"

text \<open>
  From the resolved port to the second await: the log line and the \<open>spawn\<close> call. The
  handlers registered on the child for stdout, stderr and \<open>error\<close> only log; the exit
  handler is \<open>on_exit\<close> below, and its captured \<open>directory\<close> is the child's \<open>cwd\<close>.
\<close>

definition startServer_spawn :: "runtime \<Rightarrow> string \<Rightarrow> number \<Rightarrow> state \<Rightarrow> nat \<times> state" where
  "startServer_spawn w dir p s =
     (let s1 = log ''info'' ''Starting opencode serve'' s;
          pid = next_pid s1
      in (pid, (emit [Spawn pid] s1)
                 \<lparr>procs := (procs s1)(pid \<mapsto> spawned_child w dir p), next_pid := Suc pid\<rparr>))"

text \<open>How far a call of \<open>startServer\<close> has come when it gives up control.\<close>

datatype start_result =
    Returned OpenCodeServer
  | Thrown error
  | AwaitingPort
  | AwaitingReady number nat

definition directory_error :: "string \<Rightarrow> error" where
  "directory_error dir = Error (''Directory not accessible: '' @ dir)"

text \<open>First segment: from the call to the first await that is reached.\<close>

definition startServer_begin :: "runtime \<Rightarrow> state \<Rightarrow> string \<Rightarrow> start_result \<times> state" where
  "startServer_begin w s dir =
     (case reusable s of
        Some srv \<Rightarrow> (Returned srv, log ''info'' ''Reusing existing server'' s)
      | None \<Rightarrow>
          (let s1 = emit [Access dir] s in
           if \<not> accessSync w dir then (Thrown (directory_error dir), s1)
           else (case env_port w of
                   Some p \<Rightarrow>
                     (case startServer_spawn w dir p s1 of
                        (pid, s2) \<Rightarrow> (AwaitingReady p pid, s2))
                 | None \<Rightarrow> (AwaitingPort, s1))))"

text \<open>Second segment: \<open>getOpenPort\<close> has settled with what the system answered.\<close>

definition startServer_port ::
  "runtime \<Rightarrow> state \<Rightarrow> string \<Rightarrow> listen_outcome \<Rightarrow> start_result \<times> state" where
  "startServer_port w s dir os =
     (case getOpenPort os s of
        (Inl e, s1) \<Rightarrow> (Thrown e, s1)
      | (Inr p, s1) \<Rightarrow>
          (case startServer_spawn w dir p s1 of
             (pid, s2) \<Rightarrow> (AwaitingReady p pid, s2)))"

text \<open>Third segment: \<open>waitForServer(port)\<close> has settled; on success the slot is assigned.\<close>

definition base_url :: "runtime \<Rightarrow> number \<Rightarrow> string" where
  "base_url w p = ''http://127.0.0.1:'' @ toString w p"

definition startServer_ready ::
  "runtime \<Rightarrow> state \<Rightarrow> string \<Rightarrow> number \<Rightarrow> nat \<Rightarrow> (nat \<Rightarrow> fetch_outcome) \<Rightarrow> start_result \<times> state" where
  "startServer_ready w s dir p pid net =
     (case waitForServer w p 30 net of
        (Inl e, es) \<Rightarrow> (Thrown e, emit es s)
      | (Inr _, es) \<Rightarrow>
          (let s1 = log ''info'' ''Server ready'' (emit es s);
               srv = \<lparr>process = pid, client = base_url w p, clientV2 = base_url w p,
                      port = p, directory = dir\<rparr>
           in (Returned srv, s1\<lparr>server := Some srv\<rparr>)))"

text \<open>The whole call when nothing else runs between its segments.\<close>

definition startServer ::
  "runtime \<Rightarrow> listen_outcome \<Rightarrow> (nat \<Rightarrow> fetch_outcome) \<Rightarrow> state \<Rightarrow> string \<Rightarrow> start_result \<times> state" where
  "startServer w os net s dir =
     (case startServer_begin w s dir of
        (AwaitingPort, s1) \<Rightarrow>
          (case startServer_port w s1 dir os of
             (AwaitingReady p pid, s2) \<Rightarrow> startServer_ready w s2 dir p pid net
           | r \<Rightarrow> r)
      | (AwaitingReady p pid, s1) \<Rightarrow> startServer_ready w s1 dir p pid net
      | r \<Rightarrow> r)"

subsection \<open>getServer and stopServer\<close>

definition getServer :: "state \<Rightarrow> OpenCodeServer option" where
  "getServer s = server s"

text \<open>\<open>process.kill()\<close>: the signal is sent and the flag set unless the child is gone.\<close>

definition kill :: "nat \<Rightarrow> state \<Rightarrow> state" where
  "kill pid s =
     (case procs s pid of
        Some c \<Rightarrow>
          (emit [Kill pid] s)\<lparr>procs := (procs s)(pid \<mapsto> c\<lparr>killed := \<not> exited c \<or> killed c\<rparr>)\<rparr>
      | None \<Rightarrow> emit [Kill pid] s)"

definition stopServer :: "state \<Rightarrow> state" where
  "stopServer s =
     (case server s of
        Some srv \<Rightarrow> (log ''info'' ''Server stopped'' (kill (process srv) s))\<lparr>server := None\<rparr>
      | None \<Rightarrow> s)"

subsection \<open>The event loop\<close>

text \<open>
  What becomes of a segment's result. A call made by a caller hands its value or its
  error to that caller (\<open>Settle\<close>); the call made by the exit handler has nobody waiting:
  its value is dropped and its error goes to \<open>.catch\<close>, which logs it.
\<close>

definition settle :: "nat \<Rightarrow> bool \<Rightarrow> string \<Rightarrow> start_result \<times> state \<Rightarrow> state" where
  "settle tid detached dir rs =
     (case rs of
        (Returned srv, s) \<Rightarrow>
          (let s1 = s\<lparr>tasks := (tasks s)(tid := None)\<rparr> in
           if detached then s1 else emit [Settle tid (Inr srv)] s1)
      | (Thrown e, s) \<Rightarrow>
          (let s1 = s\<lparr>tasks := (tasks s)(tid := None)\<rparr> in
           if detached then log ''error'' ''Failed to restart server'' s1
           else emit [Settle tid (Inl e)] s1)
      | (AwaitingPort, s) \<Rightarrow>
          s\<lparr>tasks := (tasks s)(tid \<mapsto>
               \<lparr>t_directory = dir, t_detached = detached, t_phase = AwaitPort\<rparr>)\<rparr>
      | (AwaitingReady p pid, s) \<Rightarrow>
          s\<lparr>tasks := (tasks s)(tid \<mapsto>
               \<lparr>t_directory = dir, t_detached = detached, t_phase = AwaitReady p pid\<rparr>)\<rparr>)"

text \<open>A new call of \<open>startServer(dir)\<close>: its first segment runs at once.\<close>

definition launch :: "runtime \<Rightarrow> bool \<Rightarrow> string \<Rightarrow> state \<Rightarrow> state" where
  "launch w detached dir s =
     settle (next_tid s) detached dir
       (startServer_begin w (s\<lparr>next_tid := Suc (next_tid s)\<rparr>) dir)"

text \<open>
  The exit handler of a child, \<open>(code) => {...}\<close>; \<open>code\<close> is null (\<open>None\<close>) when the
  child was ended by a signal.
\<close>

definition exit_cleared :: "state \<Rightarrow> state" where
  "exit_cleared s = (log ''info'' ''Server exited'' s)\<lparr>server := None\<rparr>"

definition on_exit :: "runtime \<Rightarrow> string \<Rightarrow> int option \<Rightarrow> state \<Rightarrow> state" where
  "on_exit w dir code s =
     (let s1 = exit_cleared s in
      if code \<noteq> Some 0 then launch w True dir (log ''info'' ''Restarting server'' s1)
      else s1)"

datatype event =
    CallStart string
  | CallStop
  | PortDone nat listen_outcome
  | ReadyDone nat "nat \<Rightarrow> fetch_outcome"
  | ProcExit nat "int option"

text \<open>
  One turn of the event loop. An event for a call that is not parked at that await, or
  an exit of a child that does not exist or has exited already, does not occur and
  changes nothing.
\<close>

definition resume_port :: "runtime \<Rightarrow> nat \<Rightarrow> listen_outcome \<Rightarrow> state \<Rightarrow> state" where
  "resume_port w tid os s =
     (case tasks s tid of
        Some t \<Rightarrow>
          (case t_phase t of
             AwaitPort \<Rightarrow>
               settle tid (t_detached t) (t_directory t) (startServer_port w s (t_directory t) os)
           | AwaitReady _ _ \<Rightarrow> s)
      | None \<Rightarrow> s)"

definition resume_ready :: "runtime \<Rightarrow> nat \<Rightarrow> (nat \<Rightarrow> fetch_outcome) \<Rightarrow> state \<Rightarrow> state" where
  "resume_ready w tid net s =
     (case tasks s tid of
        Some t \<Rightarrow>
          (case t_phase t of
             AwaitPort \<Rightarrow> s
           | AwaitReady p pid \<Rightarrow>
               settle tid (t_detached t) (t_directory t)
                 (startServer_ready w s (t_directory t) p pid net))
      | None \<Rightarrow> s)"

definition proc_exit :: "runtime \<Rightarrow> nat \<Rightarrow> int option \<Rightarrow> state \<Rightarrow> state" where
  "proc_exit w pid code s =
     (case procs s pid of
        Some c \<Rightarrow>
          if exited c then s
          else on_exit w (cwd c) code (s\<lparr>procs := (procs s)(pid \<mapsto> c\<lparr>exited := True\<rparr>)\<rparr>)
      | None \<Rightarrow> s)"

fun step :: "runtime \<Rightarrow> state \<Rightarrow> event \<Rightarrow> state" where
  "step w s (CallStart dir) = launch w False dir s"
| "step w s CallStop = stopServer s"
| "step w s (PortDone tid os) = resume_port w tid os s"
| "step w s (ReadyDone tid net) = resume_ready w tid net s"
| "step w s (ProcExit pid code) = proc_exit w pid code s"

definition run :: "runtime \<Rightarrow> state \<Rightarrow> event list \<Rightarrow> state" where
  "run w s evs = foldl (step w) s evs"

subsection \<open>A runtime for running the model on examples\<close>

text \<open>
  \<open>Number\<close> and the number-to-string conversion on the inputs the examples use: the
  empty string and strings of decimal digits are read as JavaScript reads them, every
  other string is taken to be NaN here (JavaScript also reads signs, fractions,
  exponents, hexadecimal and surrounding blanks); integers are printed in decimal, and
  fractions are not printed.
\<close>

definition is_digit :: "char \<Rightarrow> bool" where
  "is_digit c = (48 \<le> (of_char c :: nat) \<and> (of_char c :: nat) \<le> 57)"

definition decimal_Number :: "string \<Rightarrow> number" where
  "decimal_Number s =
     (if s = [] then Finite 0
      else if list_all is_digit s
        then Finite (of_nat (foldl (\<lambda>a c. 10 * a + (of_char c - 48)) 0 s))
      else NaN)"

function decimal_string :: "nat \<Rightarrow> string" where
  "decimal_string n =
     (if n < 10 then [''0123456789'' ! n]
      else decimal_string (n div 10) @ [''0123456789'' ! (n mod 10)])"
  by pat_completeness auto
termination
  by (relation "measure (\<lambda>n. n)") auto

declare decimal_string.simps [simp del]

definition decimal_toString :: "number \<Rightarrow> string" where
  "decimal_toString n =
     (case n of
        NaN \<Rightarrow> ''NaN''
      | Infinity \<Rightarrow> ''Infinity''
      | NegInfinity \<Rightarrow> ''-Infinity''
      | Finite q \<Rightarrow>
          if of_int \<lfloor>q\<rfloor> = q
          then (if q < 0 then ''-'' else []) @ decimal_string (nat \<bar>\<lfloor>q\<rfloor>\<bar>)
          else [])"

text \<open>
  \<open>/tmp/proj\<close> is the one accessible directory; \<open>HOME\<close> is set; \<open>port\<close> is the value
  of \<open>OPENCODE_PORT\<close>, if any.
\<close>

definition test_runtime :: "string option \<Rightarrow> runtime" where
  "test_runtime port_var =
     \<lparr>Number = decimal_Number,
      toString = decimal_toString,
      env = (case port_var of
               None \<Rightarrow> [''HOME'' \<mapsto> ''/home/bot'']
             | Some v \<Rightarrow> [''HOME'' \<mapsto> ''/home/bot'', ''OPENCODE_PORT'' \<mapsto> v]),
      accessSync = (\<lambda>d. d = ''/tmp/proj'')\<rparr>"

subsection \<open>Notions the properties are stated with\<close>

text \<open>The effects of the attempts \<open>i, ..., k - 1\<close> when each of them fails.\<close>

definition failed_attempts ::
  "runtime \<Rightarrow> number \<Rightarrow> (nat \<Rightarrow> fetch_outcome) \<Rightarrow> nat \<Rightarrow> nat \<Rightarrow> effect list" where
  "failed_attempts w p net i k =
     concat (map (\<lambda>j. [Fetch (session_url w p) 2000 (net j), Sleep 1000]) [i..<k])"

definition is_Fetch :: "effect \<Rightarrow> bool" where
  "is_Fetch e = (case e of Fetch _ _ _ \<Rightarrow> True | _ \<Rightarrow> False)"

definition is_Settle :: "effect \<Rightarrow> bool" where
  "is_Settle e = (case e of Settle _ _ \<Rightarrow> True | _ \<Rightarrow> False)"

text \<open>Some probe of port \<open>p\<close> among the effects was answered with a status below 500.\<close>

definition probe_ok :: "runtime \<Rightarrow> number \<Rightarrow> effect list \<Rightarrow> bool" where
  "probe_ok w p es =
     list_ex (\<lambda>e. case e of Fetch u _ r \<Rightarrow> u = session_url w p \<and> status_ok r | _ \<Rightarrow> False) es"

text \<open>
  The instance is ready in a history: after its child was spawned, a probe of its port
  was answered with a status below 500.
\<close>

definition ready :: "runtime \<Rightarrow> OpenCodeServer \<Rightarrow> effect list \<Rightarrow> bool" where
  "ready w srv tr = probe_ok w (port srv) (dropWhile (\<lambda>e. e \<noteq> Spawn (process srv)) tr)"

text \<open>
  Every instance handed to a caller in \<open>es\<close> was ready in the history before the
  hand-over; \<open>pre\<close> is the history before \<open>es\<close>.
\<close>

fun exposures_ready :: "runtime \<Rightarrow> effect list \<Rightarrow> effect list \<Rightarrow> bool" where
  "exposures_ready w pre [] = True"
| "exposures_ready w pre (e # es) =
     ((case e of Settle _ (Inr srv) \<Rightarrow> ready w srv pre | _ \<Rightarrow> True)
      \<and> exposures_ready w (pre @ [e]) es)"

text \<open>
  Events that are neither a call of \<open>startServer\<close> nor an exit with a code other than
  0: nothing in them begins a start procedure.
\<close>

definition quiet :: "event \<Rightarrow> bool" where
  "quiet ev =
     (case ev of CallStart _ \<Rightarrow> False | ProcExit _ code \<Rightarrow> code = Some 0 | _ \<Rightarrow> True)"

text \<open>
  \<open>n\<close> crashes in a row, each followed by the readiness of the restarted child: the
  child \<open>pid + k\<close> exits with the code \<open>codes k\<close>, and the restart that this exit
  begins is the call \<open>tid + k\<close>.
\<close>

fun crash_loop ::
  "nat \<Rightarrow> nat \<Rightarrow> (nat \<Rightarrow> int option) \<Rightarrow> (nat \<Rightarrow> fetch_outcome) \<Rightarrow> nat \<Rightarrow> event list" where
  "crash_loop pid tid codes net 0 = []"
| "crash_loop pid tid codes net (Suc n) =
     crash_loop pid tid codes net n @ [ProcExit (pid + n) (codes n), ReadyDone (tid + n) net]"

text \<open>
  The state of the examples: \<open>/tmp/proj\<close> was started with \<open>OPENCODE_PORT=4096\<close> and
  its child, handle 0, answered the first probe.
\<close>

definition example_runtime :: runtime where
  "example_runtime = test_runtime (Some ''4096'')"

definition example_running :: state where
  "example_running =
     run example_runtime init_state [CallStart ''/tmp/proj'', ReadyDone 0 (\<lambda>_. Response 200)]"

definition example_server :: OpenCodeServer where
  "example_server = \<lparr>process = 0, client = ''http://127.0.0.1:4096'',
     clientV2 = ''http://127.0.0.1:4096'', port = Finite 4096, directory = ''/tmp/proj''\<rparr>"

text \<open>A port nobody listens on, and a server that answers every probe with 200.\<close>

definition no_listener :: "nat \<Rightarrow> fetch_outcome" where
  "no_listener i = Rejected"

definition answers_ok :: "nat \<Rightarrow> fetch_outcome" where
  "answers_ok i = Response 200"

text \<open>
  The invariant of the event loop behind the ordering guarantee: the held instance is
  ready in the history, every call parked at the readiness await has spawned its child,
  and every instance handed to a caller was ready when it was handed over.
\<close>

definition ready_inv :: "runtime \<Rightarrow> state \<Rightarrow> bool" where
  "ready_inv w s \<longleftrightarrow>
     (\<forall>srv. server s = Some srv \<longrightarrow> ready w srv (trace s))
     \<and> (\<forall>tid t p pid. tasks s tid = Some t \<longrightarrow> t_phase t = AwaitReady p pid \<longrightarrow>
           Spawn pid \<in> set (trace s))
     \<and> exposures_ready w [] (trace s)"

text \<open>
  A second invariant of the event loop: handles in use are below \<open>next_pid\<close>, the child
  of the held instance runs in the directory of the instance, and the child of a call
  parked at the readiness await runs in the directory of that call.
\<close>

definition dir_inv :: "state \<Rightarrow> bool" where
  "dir_inv s \<longleftrightarrow>
     (\<forall>pid. procs s pid \<noteq> None \<longrightarrow> pid < next_pid s)
     \<and> (\<forall>srv. server s = Some srv \<longrightarrow>
           map_option cwd (procs s (process srv)) = Some (directory srv))
     \<and> (\<forall>tid t p pid. tasks s tid = Some t \<longrightarrow> t_phase t = AwaitReady p pid \<longrightarrow>
           map_option cwd (procs s pid) = Some (t_directory t))"

text \<open>
  The example after its child was ended by a signal, and the runtime after the project
  directory has become inaccessible.
\<close>

definition example_crashed :: state where
  "example_crashed = step example_runtime example_running (ProcExit 0 None)"

definition unreadable_runtime :: runtime where
  "unreadable_runtime = example_runtime\<lparr>accessSync := \<lambda>d. False\<rparr>"

definition example_codes :: "nat \<Rightarrow> int option" where
  "example_codes k = (if k = 0 then Some 1 else None)"

text \<open>
  The example when its child exits with code 0 before the first probe is answered, and
  the probe is then answered all the same (by whoever listens on port 4096): the slot
  holds an instance whose child has exited.
\<close>

definition example_stale :: state where
  "example_stale =
     run example_runtime init_state
       [CallStart ''/tmp/proj'', ProcExit 0 (Some 0), ReadyDone 0 answers_ok]"

section \<open>Properties\<close>

subsection \<open>The segments, case by case\<close>

lemma emit_fields [simp]:
  "server (emit es s) = server s"
  "procs (emit es s) = procs s"
  "next_pid (emit es s) = next_pid s"
  "sockets (emit es s) = sockets s"
  "tasks (emit es s) = tasks s"
  "next_tid (emit es s) = next_tid s"
  "trace (emit es s) = trace s @ es"
  by (simp_all add: emit_def)

lemma log_fields [simp]:
  "server (log l m s) = server s"
  "procs (log l m s) = procs s"
  "next_pid (log l m s) = next_pid s"
  "sockets (log l m s) = sockets s"
  "tasks (log l m s) = tasks s"
  "next_tid (log l m s) = next_tid s"
  "trace (log l m s) = trace s @ [Log l m]"
  by (simp_all add: log_def)

lemma getOpenPort_refused:
  "getOpenPort (ListenError e) s = (Inl (SystemError e), emit [NetListen] s)"
  by (simp add: getOpenPort_def)

lemma getOpenPort_port:
  "getOpenPort (Listening (AddressInfo p)) s = (Inr p, emit [NetListen, NetClose] s)"
  by (simp add: getOpenPort_def emit_def)

lemma getOpenPort_no_address:
  "\<forall>p. a \<noteq> AddressInfo p \<Longrightarrow> getOpenPort (Listening a) s =
     (Inl (Error ''Failed to get port''), (emit [NetListen] s)\<lparr>sockets := sockets s + 1\<rparr>)"
  by (cases a) (simp_all add: getOpenPort_def emit_def)

lemma startServer_spawn_eq:
  "startServer_spawn w dir p s =
     (next_pid s,
      (emit [Log ''info'' ''Starting opencode serve'', Spawn (next_pid s)] s)
        \<lparr>procs := (procs s)(next_pid s \<mapsto> spawned_child w dir p), next_pid := Suc (next_pid s)\<rparr>)"
  by (simp add: startServer_spawn_def log_def emit_def Let_def)

lemma startServer_begin_reuse:
  "reusable s = Some srv \<Longrightarrow>
   startServer_begin w s dir = (Returned srv, log ''info'' ''Reusing existing server'' s)"
  by (simp add: startServer_begin_def)

lemma startServer_begin_inaccessible:
  "reusable s = None \<Longrightarrow> \<not> accessSync w dir \<Longrightarrow>
   startServer_begin w s dir = (Thrown (directory_error dir), emit [Access dir] s)"
  by (simp add: startServer_begin_def)

lemma startServer_begin_env_port:
  "reusable s = None \<Longrightarrow> accessSync w dir \<Longrightarrow> env_port w = Some p \<Longrightarrow>
   startServer_begin w s dir =
     (AwaitingReady p (next_pid s),
      (emit [Access dir, Log ''info'' ''Starting opencode serve'', Spawn (next_pid s)] s)
        \<lparr>procs := (procs s)(next_pid s \<mapsto> spawned_child w dir p), next_pid := Suc (next_pid s)\<rparr>)"
  by (simp add: startServer_begin_def startServer_spawn_eq emit_def)

lemma startServer_begin_allocate:
  "reusable s = None \<Longrightarrow> accessSync w dir \<Longrightarrow> env_port w = None \<Longrightarrow>
   startServer_begin w s dir = (AwaitingPort, emit [Access dir] s)"
  by (simp add: startServer_begin_def)

lemma startServer_port_refused:
  "startServer_port w s dir (ListenError e) = (Thrown (SystemError e), emit [NetListen] s)"
  by (simp add: startServer_port_def getOpenPort_refused)

lemma startServer_port_spawn:
  "startServer_port w s dir (Listening (AddressInfo p)) =
     (AwaitingReady p (next_pid s),
      (emit [NetListen, NetClose, Log ''info'' ''Starting opencode serve'', Spawn (next_pid s)] s)
        \<lparr>procs := (procs s)(next_pid s \<mapsto> spawned_child w dir p), next_pid := Suc (next_pid s)\<rparr>)"
  by (simp add: startServer_port_def getOpenPort_port startServer_spawn_eq emit_def)

lemma startServer_ready_ok:
  "waitForServer w p 30 net = (Inr b, es) \<Longrightarrow>
   startServer_ready w s dir p pid net =
     (Returned \<lparr>process = pid, client = base_url w p, clientV2 = base_url w p,
                port = p, directory = dir\<rparr>,
      (emit (es @ [Log ''info'' ''Server ready'']) s)
        \<lparr>server := Some \<lparr>process = pid, client = base_url w p, clientV2 = base_url w p,
                port = p, directory = dir\<rparr>\<rparr>)"
  by (simp add: startServer_ready_def log_def emit_def Let_def)

lemma startServer_ready_timeout:
  "waitForServer w p 30 net = (Inl e, es) \<Longrightarrow>
   startServer_ready w s dir p pid net = (Thrown e, emit es s)"
  by (simp add: startServer_ready_def)

subsection \<open>The readiness loop\<close>

lemma failed_attempts_step:
  "i < k \<Longrightarrow> failed_attempts w p net i k =
     Fetch (session_url w p) 2000 (net i) # Sleep 1000 # failed_attempts w p net (Suc i) k"
  by (simp add: failed_attempts_def upt_conv_Cons)

lemma failed_attempts_probes:
  "length (filter is_Fetch (failed_attempts w p net i k)) = k - i"
proof (induction "k - i" arbitrary: i)
  case 0
  then show ?case by (simp add: failed_attempts_def)
next
  case (Suc d)
  then have "i < k" by simp
  moreover from Suc have "length (filter is_Fetch (failed_attempts w p net (Suc i) k)) = k - Suc i"
    by (intro Suc.hyps) simp
  ultimately show ?case
    by (simp add: failed_attempts_step is_Fetch_def)
qed

lemma waitForServer_from_success:
  "i \<le> k \<Longrightarrow> k < m \<Longrightarrow> status_ok (net k) \<Longrightarrow> (\<forall>j. i \<le> j \<and> j < k \<longrightarrow> \<not> status_ok (net j)) \<Longrightarrow>
   waitForServer_from w p m net i =
     (Inr True, failed_attempts w p net i k @ [Fetch (session_url w p) 2000 (net k)])"
proof (induction "k - i" arbitrary: i)
  case 0
  then have "i = k" by simp
  with 0 show ?case
    by (simp add: waitForServer_from.simps [of w p m net k] failed_attempts_def)
next
  case (Suc d)
  then have lt: "i < k" and bad: "\<not> status_ok (net i)" by auto
  from Suc have "waitForServer_from w p m net (Suc i) =
     (Inr True, failed_attempts w p net (Suc i) k @ [Fetch (session_url w p) 2000 (net k)])"
    by (intro Suc.hyps) auto
  with lt bad Suc.prems show ?case
    by (simp add: waitForServer_from.simps [of w p m net i] failed_attempts_step)
qed

lemma waitForServer_from_timeout:
  "i \<le> m \<Longrightarrow> (\<forall>j. i \<le> j \<and> j < m \<longrightarrow> \<not> status_ok (net j)) \<Longrightarrow>
   waitForServer_from w p m net i =
     (Inl (Error (timeout_message w p m)), failed_attempts w p net i m)"
proof (induction "m - i" arbitrary: i)
  case 0
  then have "i = m" by simp
  then show ?case
    by (simp add: waitForServer_from.simps [of w p m net m] failed_attempts_def)
next
  case (Suc d)
  then have lt: "i < m" and bad: "\<not> status_ok (net i)" by auto
  from Suc have "waitForServer_from w p m net (Suc i) =
     (Inl (Error (timeout_message w p m)), failed_attempts w p net (Suc i) m)"
    by (intro Suc.hyps) auto
  with lt bad show ?case
    by (simp add: waitForServer_from.simps [of w p m net i] failed_attempts_step)
qed

text \<open>Either some attempt below the bound is the first to succeed, or all of them fail.\<close>

lemma first_success:
  "(\<exists>k<m. status_ok (net k) \<and> (\<forall>j<k. \<not> status_ok (net j))) \<or> (\<forall>j<m. \<not> status_ok ((net :: nat \<Rightarrow> fetch_outcome) j))"
proof (cases "\<exists>k<m. status_ok (net k)")
  case True
  define k where "k = (LEAST k. k < m \<and> status_ok (net k))"
  from True have "\<exists>k. k < m \<and> status_ok (net k)" by blast
  then have "k < m \<and> status_ok (net k)"
    unfolding k_def by (rule LeastI_ex)
  moreover have "\<not> status_ok (net j)" if "j < k" for j
  proof
    assume "status_ok (net j)"
    with that \<open>k < m \<and> status_ok (net k)\<close> have "j < m \<and> status_ok (net j)" by simp
    then have "k \<le> j" unfolding k_def by (rule Least_le)
    with that show False by simp
  qed
  ultimately show ?thesis by blast
next
  case False
  then show ?thesis by blast
qed

lemma waitForServer_probes: "length (filter is_Fetch (snd (waitForServer w p m net))) \<le> m"
proof -
  consider k where "k < m" "status_ok (net k)" "\<forall>j<k. \<not> status_ok (net j)"
    | "\<forall>j<m. \<not> status_ok (net j)"
    using first_success [of m net] by blast
  then show ?thesis
  proof cases
    case 1
    then have "waitForServer w p m net =
      (Inr True, failed_attempts w p net 0 k @ [Fetch (session_url w p) 2000 (net k)])"
      unfolding waitForServer_def by (intro waitForServer_from_success) auto
    with 1 show ?thesis by (simp add: failed_attempts_probes is_Fetch_def)
  next
    case 2
    then have "waitForServer w p m net =
      (Inl (Error (timeout_message w p m)), failed_attempts w p net 0 m)"
      unfolding waitForServer_def by (intro waitForServer_from_timeout) auto
    then show ?thesis by (simp add: failed_attempts_probes)
  qed
qed

text \<open>Evaluating the runtime of the examples.\<close>

lemmas example_defs = example_runtime_def test_runtime_def decimal_Number_def is_digit_def
  decimal_toString_def decimal_string.simps session_url_def base_url_def timeout_message_def

text \<open>
  Claim C5. \<open>waitForServer(port, maxAttempts)\<close> sends at most \<open>maxAttempts\<close> requests,
  each to the session URL of the port with a 2000 ms abort signal, and sleeps 1000 ms after
  each attempt that did not succeed. It returns true at the first attempt \<open>k\<close> answered
  with a status below 500, having sent \<open>k + 1\<close> requests; when none of the
  \<open>maxAttempts\<close> attempts is answered so, it throws an error whose message carries the
  port and \<open>maxAttempts\<close>. A rejected fetch (no listener, or the abort) counts as a
  failed attempt. \<open>startServer\<close>, the only caller, leaves \<open>maxAttempts\<close> at its default
  of 30 and throws what \<open>waitForServer\<close> throws.
\<close>

theorem waitForServer_attempts:
  "(k < maxAttempts \<and> status_ok (net k) \<and> (\<forall>j<k. \<not> status_ok (net j)) \<longrightarrow>
      waitForServer w p maxAttempts net =
        (Inr True, failed_attempts w p net 0 k @ [Fetch (session_url w p) 2000 (net k)]))
   \<and> ((\<forall>j<maxAttempts. \<not> status_ok (net j)) \<longrightarrow>
      waitForServer w p maxAttempts net =
        (Inl (Error (''Server did not start on port '' @ toString w p @ '' after ''
                      @ toString w (Finite (of_nat maxAttempts)) @ '' seconds'')),
         failed_attempts w p net 0 maxAttempts))
   \<and> length (filter is_Fetch (snd (waitForServer w p maxAttempts net))) \<le> maxAttempts
   \<and> (status_ok (Response st) \<longleftrightarrow> st < 500) \<and> \<not> status_ok Rejected
   \<and> fst (startServer_ready w s dir p pid net) =
       (case fst (waitForServer w p 30 net) of
          Inl e \<Rightarrow> Thrown e
        | Inr b \<Rightarrow> Returned \<lparr>process = pid, client = base_url w p, clientV2 = base_url w p,
                               port = p, directory = dir\<rparr>)"
proof (intro conjI impI)
  assume "k < maxAttempts \<and> status_ok (net k) \<and> (\<forall>j<k. \<not> status_ok (net j))"
  then show "waitForServer w p maxAttempts net =
      (Inr True, failed_attempts w p net 0 k @ [Fetch (session_url w p) 2000 (net k)])"
    unfolding waitForServer_def by (intro waitForServer_from_success) auto
next
  assume "\<forall>j<maxAttempts. \<not> status_ok (net j)"
  then have "waitForServer w p maxAttempts net =
      (Inl (Error (timeout_message w p maxAttempts)), failed_attempts w p net 0 maxAttempts)"
    unfolding waitForServer_def by (intro waitForServer_from_timeout) auto
  then show "waitForServer w p maxAttempts net =
        (Inl (Error (''Server did not start on port '' @ toString w p @ '' after ''
                      @ toString w (Finite (of_nat maxAttempts)) @ '' seconds'')),
         failed_attempts w p net 0 maxAttempts)"
    by (simp add: timeout_message_def)
next
  show "length (filter is_Fetch (snd (waitForServer w p maxAttempts net))) \<le> maxAttempts"
    by (rule waitForServer_probes)
next
  show "fst (startServer_ready w s dir p pid net) =
       (case fst (waitForServer w p 30 net) of
          Inl e \<Rightarrow> Thrown e
        | Inr b \<Rightarrow> Returned \<lparr>process = pid, client = base_url w p, clientV2 = base_url w p,
                               port = p, directory = dir\<rparr>)"
    by (cases "waitForServer w p 30 net"; cases "fst (waitForServer w p 30 net)")
       (simp_all add: startServer_ready_ok startServer_ready_timeout)
qed (simp_all add: status_ok_def)

theorem waitForServer_attempts_witness:
  "waitForServer example_runtime (Finite 4096) 30 (\<lambda>i. if i < 2 then Rejected else Response 404) =
     (Inr True,
      [Fetch ''http://127.0.0.1:4096/session'' 2000 Rejected, Sleep 1000,
       Fetch ''http://127.0.0.1:4096/session'' 2000 Rejected, Sleep 1000,
       Fetch ''http://127.0.0.1:4096/session'' 2000 (Response 404)])
   \<and> waitForServer example_runtime (Finite 4096) 3 (\<lambda>i. Rejected) =
     (Inl (Error ''Server did not start on port 4096 after 3 seconds''),
      [Fetch ''http://127.0.0.1:4096/session'' 2000 Rejected, Sleep 1000,
       Fetch ''http://127.0.0.1:4096/session'' 2000 Rejected, Sleep 1000,
       Fetch ''http://127.0.0.1:4096/session'' 2000 Rejected, Sleep 1000])"
  using waitForServer_attempts [of 2 30 "\<lambda>i. if i < 2 then Rejected else Response 404"
      example_runtime "Finite 4096"]
    waitForServer_attempts [of 0 3 "\<lambda>i. Rejected" example_runtime "Finite 4096"]
  by (simp add: status_ok_def failed_attempts_def example_defs upt_rec)

subsection \<open>Reuse, directory check and the state of the examples\<close>

lemma reusable_live:
  "server s = Some srv \<Longrightarrow> \<not> process_killed s (process srv) \<Longrightarrow> reusable s = Some srv"
  by (simp add: reusable_def)

lemma reusable_SomeD:
  "reusable s = Some srv \<Longrightarrow> server s = Some srv \<and> \<not> process_killed s (process srv)"
  by (auto simp: reusable_def split: option.splits if_splits)

lemma reusable_None_iff:
  "reusable s = None \<longleftrightarrow>
     server s = None \<or> (\<exists>srv. server s = Some srv \<and> process_killed s (process srv))"
  by (auto simp: reusable_def split: option.splits)

lemma process_killed_frame [simp]:
  "process_killed (s\<lparr>next_tid := n\<rparr>) = process_killed s"
  "process_killed (s\<lparr>tasks := ts\<rparr>) = process_killed s"
  "process_killed (s\<lparr>trace := tr\<rparr>) = process_killed s"
  "process_killed (s\<lparr>sockets := k\<rparr>) = process_killed s"
  "process_killed (emit es s) = process_killed s"
  "process_killed (log l m s) = process_killed s"
  by (simp_all add: process_killed_def fun_eq_iff)

lemma reusable_frame [simp]:
  "reusable (s\<lparr>next_tid := n\<rparr>) = reusable s"
  "reusable (s\<lparr>tasks := ts\<rparr>) = reusable s"
  "reusable (s\<lparr>trace := tr\<rparr>) = reusable s"
  "reusable (s\<lparr>sockets := k\<rparr>) = reusable s"
  "reusable (emit es s) = reusable s"
  "reusable (log l m s) = reusable s"
  by (simp_all add: reusable_def cong: option.case_cong)

lemma startServer_reuse:
  "reusable s = Some srv \<Longrightarrow>
   startServer w os net s dir = (Returned srv, log ''info'' ''Reusing existing server'' s)"
  by (simp add: startServer_def startServer_begin_reuse)

lemma startServer_inaccessible:
  "reusable s = None \<Longrightarrow> \<not> accessSync w dir \<Longrightarrow>
   startServer w os net s dir = (Thrown (directory_error dir), emit [Access dir] s)"
  by (simp add: startServer_def startServer_begin_inaccessible)

lemma launch_reuse:
  "reusable s = Some srv \<Longrightarrow>
   launch w False dir s =
     (emit [Log ''info'' ''Reusing existing server'', Settle (next_tid s) (Inr srv)] s)
       \<lparr>tasks := (tasks s)(next_tid s := None), next_tid := Suc (next_tid s)\<rparr>"
  by (simp add: launch_def startServer_begin_reuse settle_def log_def emit_def Let_def)

lemma launch_inaccessible:
  "reusable s = None \<Longrightarrow> \<not> accessSync w dir \<Longrightarrow>
   launch w False dir s =
     (emit [Access dir, Settle (next_tid s) (Inl (directory_error dir))] s)
       \<lparr>tasks := (tasks s)(next_tid s := None), next_tid := Suc (next_tid s)\<rparr>"
  by (simp add: launch_def startServer_begin_inaccessible settle_def log_def emit_def Let_def)

lemmas run_defs = run_def init_state_def launch_def settle_def startServer_begin_def
  reusable_def process_killed_def env_port_def parsedPort_def truthy_def isNaN_def
  startServer_spawn_def log_def emit_def resume_ready_def resume_port_def
  startServer_ready_def startServer_port_def getOpenPort_def
  waitForServer_def status_ok_def proc_exit_def on_exit_def exit_cleared_def
  stopServer_def kill_def Let_def

lemma example_running_eq:
  "example_running =
     \<lparr>server = Some \<lparr>process = 0, client = ''http://127.0.0.1:4096'',
                      clientV2 = ''http://127.0.0.1:4096'', port = Finite 4096,
                      directory = ''/tmp/proj''\<rparr>,
      procs = [0 \<mapsto> spawned_child example_runtime ''/tmp/proj'' (Finite 4096)],
      next_pid = 1, sockets = 0, tasks = Map.empty, next_tid = 1,
      trace = [Access ''/tmp/proj'', Log ''info'' ''Starting opencode serve'', Spawn 0,
               Fetch ''http://127.0.0.1:4096/session'' 2000 (Response 200),
               Log ''info'' ''Server ready'',
               Settle 0 (Inr \<lparr>process = 0, client = ''http://127.0.0.1:4096'',
                                clientV2 = ''http://127.0.0.1:4096'', port = Finite 4096,
                                directory = ''/tmp/proj''\<rparr>)]\<rparr>"
  by (simp add: example_running_def run_defs waitForServer_from.simps example_defs)

lemma example_running_live:
  "\<not> process_killed example_running 0"
  by (simp add: example_running_eq process_killed_def spawned_child_def)

text \<open>
  Claim C2. When the slot holds an instance whose child is not flagged killed,
  \<open>startServer(dir)\<close> returns that very instance for every \<open>dir\<close>, whatever the
  directory of the instance is: the only effect is the log line, so no socket is opened, no
  child is spawned (\<open>procs\<close> and \<open>next_pid\<close> are unchanged) and the slot still holds the
  instance. The same holds for the call as the event loop runs it, where the instance is
  handed to the caller at once.
\<close>

theorem startServer_reuses_live_instance:
  assumes "server s = Some srv" and "\<not> process_killed s (process srv)"
  shows "startServer w os net s dir = (Returned srv, log ''info'' ''Reusing existing server'' s)
    \<and> getServer (log ''info'' ''Reusing existing server'' s) = Some srv
    \<and> procs (log ''info'' ''Reusing existing server'' s) = procs s
    \<and> next_pid (log ''info'' ''Reusing existing server'' s) = next_pid s
    \<and> sockets (log ''info'' ''Reusing existing server'' s) = sockets s
    \<and> trace (log ''info'' ''Reusing existing server'' s)
        = trace s @ [Log ''info'' ''Reusing existing server'']
    \<and> getServer (step w s (CallStart dir)) = Some srv
    \<and> procs (step w s (CallStart dir)) = procs s
    \<and> next_pid (step w s (CallStart dir)) = next_pid s
    \<and> sockets (step w s (CallStart dir)) = sockets s
    \<and> trace (step w s (CallStart dir))
        = trace s @ [Log ''info'' ''Reusing existing server'', Settle (next_tid s) (Inr srv)]"
proof -
  from assms have r: "reusable s = Some srv" by (rule reusable_live)
  show ?thesis
    using assms by (simp add: startServer_reuse [OF r] launch_reuse [OF r] getServer_def)
qed

theorem startServer_reuses_live_instance_witness:
  "startServer example_runtime (ListenError ''EMFILE'') (\<lambda>i. Rejected) example_running ''/srv/other''
     = (Returned example_server, log ''info'' ''Reusing existing server'' example_running)
   \<and> getServer (step example_runtime example_running (CallStart ''/srv/other'')) = Some example_server
   \<and> next_pid (step example_runtime example_running (CallStart ''/srv/other'')) = 1
   \<and> trace (step example_runtime example_running (CallStart ''/srv/other''))
       = trace example_running @
         [Log ''info'' ''Reusing existing server'', Settle 1 (Inr example_server)]"
proof -
  have "server example_running = Some example_server"
    by (simp add: example_running_eq example_server_def)
  moreover have "\<not> process_killed example_running (process example_server)"
    by (simp add: example_server_def example_running_live)
  ultimately show ?thesis
    using startServer_reuses_live_instance [of example_running example_server
      example_runtime "ListenError ''EMFILE''" "\<lambda>i. Rejected" "''/srv/other''"]
    by (simp add: example_running_eq)
qed

subsection \<open>Which errors a call can throw\<close>

lemma directory_error_distinct [simp]:
  "directory_error dir \<noteq> SystemError e"
  "SystemError e \<noteq> directory_error dir"
  "directory_error dir \<noteq> Error ''Failed to get port''"
  "Error ''Failed to get port'' \<noteq> directory_error dir"
  "directory_error dir \<noteq> Error (timeout_message w p m)"
  "Error (timeout_message w p m) \<noteq> directory_error dir"
  by (simp_all add: directory_error_def timeout_message_def)

lemma startServer_port_results:
  "fst (startServer_port w s dir os) \<noteq> Thrown (directory_error dir)"
  by (cases os; cases "case os of Listening a \<Rightarrow> a | _ \<Rightarrow> AddressNull")
     (auto simp: startServer_port_def getOpenPort_def startServer_spawn_eq Let_def
       split: address.splits)

lemma waitForServer_from_error:
  "waitForServer_from w p m net i = (Inl e, es) \<Longrightarrow> e = Error (timeout_message w p m)"
proof (induction w p m net i arbitrary: es rule: waitForServer_from.induct)
  case (1 w p m net i)
  show ?case
  proof (cases "i < m \<and> \<not> status_ok (net i)")
    case True
    with "1.prems" obtain es' where "waitForServer_from w p m net (Suc i) = (Inl e, es')"
      by (subst (asm) waitForServer_from.simps)
         (cases "waitForServer_from w p m net (Suc i)", auto)
    with True "1.IH" show ?thesis by blast
  next
    case False
    with "1.prems" show ?thesis
      by (subst (asm) waitForServer_from.simps) (auto split: if_splits)
  qed
qed

lemma startServer_ready_results:
  "fst (startServer_ready w s dir p pid net) \<noteq> Thrown (directory_error dir')"
proof (cases "waitForServer w p 30 net")
  case (Pair r es)
  show ?thesis
  proof (cases r)
    case (Inl e)
    with Pair have "e = Error (timeout_message w p 30)"
      unfolding waitForServer_def by (auto dest: waitForServer_from_error)
    with Pair Inl show ?thesis by (simp add: startServer_ready_timeout)
  next
    case (Inr b)
    with Pair show ?thesis by (simp add: startServer_ready_ok)
  qed
qed

lemma startServer_directory_errorD:
  assumes "fst (startServer w os net s dir) = Thrown (directory_error dir)"
  shows "reusable s = None \<and> \<not> accessSync w dir"
proof (cases "reusable s")
  case (Some srv)
  with assms show ?thesis by (simp add: startServer_reuse)
next
  case None
  show ?thesis
  proof (cases "accessSync w dir")
    case False
    with None show ?thesis by simp
  next
    case True
    show ?thesis
    proof (cases "env_port w")
      case (Some p)
      with None True assms startServer_ready_results [of w _ dir p _ net dir]
      show ?thesis
        by (simp add: startServer_def startServer_begin_env_port)
    next
      case no_env: None
      obtain r s1 where ps: "startServer_port w (emit [Access dir] s) dir os = (r, s1)"
        by (cases "startServer_port w (emit [Access dir] s) dir os")
      with startServer_port_results [of w "emit [Access dir] s" dir os]
      have "r \<noteq> Thrown (directory_error dir)" by simp
      with None True no_env ps assms startServer_ready_results [of w s1 dir _ _ net dir]
      show ?thesis
        by (cases r) (simp_all add: startServer_def startServer_begin_allocate)
    qed
  qed
qed

lemma example_running_server: "server example_running = Some example_server"
  by (simp add: example_running_eq example_server_def)

lemma example_server_live: "\<not> process_killed example_running (process example_server)"
  by (simp add: example_server_def example_running_live)

lemma example_missing: "\<not> accessSync example_runtime ''/missing''"
  by (simp add: example_runtime_def test_runtime_def)

text \<open>
  Claim C10. The reuse check comes before the directory check. When the slot holds an
  instance whose child is not flagged killed and \<open>dir\<close> is not accessible,
  \<open>startServer(dir)\<close> still returns the held instance, and its only effect is the log
  line: \<open>fs.accessSync\<close> is not called. Conversely, when \<open>startServer(dir)\<close> throws
  the directory error, the directory is inaccessible and the slot was empty or held an
  instance whose child is flagged killed.
\<close>

theorem reuse_precedes_directory_check:
  "(server s = Some srv \<and> \<not> process_killed s (process srv) \<and> \<not> accessSync w dir \<longrightarrow>
      fst (startServer w os net s dir) = Returned srv
      \<and> trace (snd (startServer w os net s dir))
          = trace s @ [Log ''info'' ''Reusing existing server''])
   \<and> (fst (startServer w os net s dir) = Thrown (directory_error dir) \<longrightarrow>
      \<not> accessSync w dir
      \<and> (server s = None \<or> (\<exists>held. server s = Some held \<and> process_killed s (process held))))"
proof (intro conjI impI)
  assume "server s = Some srv \<and> \<not> process_killed s (process srv) \<and> \<not> accessSync w dir"
  then have r: "reusable s = Some srv" by (simp add: reusable_live)
  show "fst (startServer w os net s dir) = Returned srv"
    by (simp add: startServer_reuse [OF r])
  show "trace (snd (startServer w os net s dir)) = trace s @ [Log ''info'' ''Reusing existing server'']"
    by (simp add: startServer_reuse [OF r])
next
  assume a: "fst (startServer w os net s dir) = Thrown (directory_error dir)"
  then show "\<not> accessSync w dir"
    by (simp add: startServer_directory_errorD)
  from a show "server s = None \<or> (\<exists>held. server s = Some held \<and> process_killed s (process held))"
    using startServer_directory_errorD [OF a] by (simp add: reusable_None_iff)
qed

theorem reuse_precedes_directory_check_witness:
  "\<not> accessSync example_runtime ''/missing''
   \<and> fst (startServer example_runtime (ListenError ''EMFILE'') (\<lambda>i. Rejected) example_running ''/missing'')
       = Returned example_server
   \<and> fst (startServer example_runtime (ListenError ''EMFILE'') (\<lambda>i. Rejected) init_state ''/missing'')
       = Thrown (directory_error ''/missing'')
   \<and> server init_state = None"
proof -
  have thrown: "fst (startServer example_runtime (ListenError ''EMFILE'') (\<lambda>i. Rejected) init_state ''/missing'')
       = Thrown (directory_error ''/missing'')"
    by (simp add: startServer_inaccessible example_missing reusable_def init_state_def)
  from reuse_precedes_directory_check [of example_running example_server example_runtime
      "''/missing''" "ListenError ''EMFILE''" "\<lambda>i. Rejected"]
    example_running_server example_server_live example_missing
  have "fst (startServer example_runtime (ListenError ''EMFILE'') (\<lambda>i. Rejected) example_running ''/missing'')
       = Returned example_server"
    by blast
  moreover
  from reuse_precedes_directory_check [of init_state example_server example_runtime
      "''/missing''" "ListenError ''EMFILE''" "\<lambda>i. Rejected"] thrown
  have "server init_state = None \<or> (\<exists>held. server init_state = Some held \<and> process_killed init_state (process held))"
    by blast
  then have "server init_state = None"
    by (simp add: init_state_def)
  ultimately show ?thesis
    using thrown example_missing by simp
qed

subsection \<open>The directory check and the port allocator\<close>

text \<open>
  Claim C6, as stated, fails: with a live instance in the slot, \<open>startServer\<close> of an
  inaccessible directory returns the instance and throws nothing.
\<close>

theorem inaccessible_directory_counterexample:
  "\<not> accessSync example_runtime ''/missing''
   \<and> startServer example_runtime (ListenError ''EMFILE'') no_listener example_running ''/missing''
       = (Returned example_server, log ''info'' ''Reusing existing server'' example_running)"
proof -
  have "reusable example_running = Some example_server"
    by (simp add: reusable_live example_running_server example_server_live)
  then show ?thesis
    by (simp add: startServer_reuse example_missing)
qed

text \<open>
  Claim C6, amended. When the slot is empty or holds an instance whose child is flagged
  killed, \<open>startServer(dir)\<close> of a directory that is not accessible throws the directory
  error, and the access check is its only effect: no socket is opened, no child is spawned
  and the slot is unchanged. The same holds for the call as the event loop runs it, where
  the error is handed to the caller at once.
\<close>

theorem inaccessible_directory_throws_first:
  assumes "server s = None \<or> (\<exists>held. server s = Some held \<and> process_killed s (process held))"
    and "\<not> accessSync w dir"
  shows "startServer w os net s dir = (Thrown (directory_error dir), emit [Access dir] s)
    \<and> directory_error dir = Error (''Directory not accessible: '' @ dir)
    \<and> server (emit [Access dir] s) = server s
    \<and> procs (emit [Access dir] s) = procs s
    \<and> next_pid (emit [Access dir] s) = next_pid s
    \<and> sockets (emit [Access dir] s) = sockets s
    \<and> trace (emit [Access dir] s) = trace s @ [Access dir]
    \<and> server (step w s (CallStart dir)) = server s
    \<and> procs (step w s (CallStart dir)) = procs s
    \<and> next_pid (step w s (CallStart dir)) = next_pid s
    \<and> sockets (step w s (CallStart dir)) = sockets s
    \<and> trace (step w s (CallStart dir))
        = trace s @ [Access dir, Settle (next_tid s) (Inl (directory_error dir))]"
proof -
  from assms(1) have r: "reusable s = None" by (simp add: reusable_None_iff)
  show ?thesis
    by (simp add: startServer_inaccessible [OF r assms(2)] launch_inaccessible [OF r assms(2)]
        directory_error_def)
qed

theorem inaccessible_directory_throws_first_witness:
  "startServer example_runtime (ListenError ''EMFILE'') no_listener init_state ''/missing''
     = (Thrown (Error ''Directory not accessible: /missing''), emit [Access ''/missing''] init_state)
   \<and> server (step example_runtime init_state (CallStart ''/missing'')) = None
   \<and> next_pid (step example_runtime init_state (CallStart ''/missing'')) = 0
   \<and> sockets (step example_runtime init_state (CallStart ''/missing'')) = 0
   \<and> trace (step example_runtime init_state (CallStart ''/missing''))
       = [Access ''/missing'', Settle 0 (Inl (Error ''Directory not accessible: /missing''))]"
proof -
  have "server init_state = None \<or>
      (\<exists>held. server init_state = Some held \<and> process_killed init_state (process held))"
    by (simp add: init_state_def)
  from inaccessible_directory_throws_first [OF this example_missing,
      of "ListenError ''EMFILE''" no_listener]
  show ?thesis
    by (simp add: directory_error_def init_state_def)
qed

text \<open>
  Claim C8. \<open>getOpenPort\<close> listens on port 0. A TCP server that listens on a port
  answers in one of two ways: with the error event, or with the listening callback in
  which \<open>srv.address()\<close> is the address object (it is a string only for a pipe, and null
  only while the server is not listening). When the port \<open>p\<close> is read back, the socket
  is closed and exactly \<open>p\<close> is returned; when the bind is refused, the promise is
  rejected with the error of the system; and when the address is not an object, it is
  rejected with \<open>new Error("Failed to get port")\<close>. On both answers of a TCP server the
  only effects are the listen and, after a successful bind, the close: no socket stays
  open, and the slot, the children and the calls in flight are untouched.
\<close>

theorem getOpenPort_allocates:
  "(os = Listening (AddressInfo p) \<longrightarrow> getOpenPort os s = (Inr p, emit [NetListen, NetClose] s))
   \<and> (os = ListenError x \<longrightarrow> getOpenPort os s = (Inl (SystemError x), emit [NetListen] s))
   \<and> ((\<forall>q. a \<noteq> AddressInfo q) \<longrightarrow>
         fst (getOpenPort (Listening a) s) = Inl (Error ''Failed to get port''))
   \<and> (os = Listening (AddressInfo p) \<or> os = ListenError x \<longrightarrow>
         server (snd (getOpenPort os s)) = server s
         \<and> procs (snd (getOpenPort os s)) = procs s
         \<and> next_pid (snd (getOpenPort os s)) = next_pid s
         \<and> sockets (snd (getOpenPort os s)) = sockets s
         \<and> tasks (snd (getOpenPort os s)) = tasks s
         \<and> next_tid (snd (getOpenPort os s)) = next_tid s
         \<and> trace (snd (getOpenPort os s)) =
             trace s @ (case os of Listening _ \<Rightarrow> [NetListen, NetClose]
                        | ListenError _ \<Rightarrow> [NetListen]))"
proof (intro conjI impI)
  assume "os = Listening (AddressInfo p)"
  then show "getOpenPort os s = (Inr p, emit [NetListen, NetClose] s)"
    by (simp add: getOpenPort_port)
next
  assume "os = ListenError x"
  then show "getOpenPort os s = (Inl (SystemError x), emit [NetListen] s)"
    by (simp add: getOpenPort_refused)
next
  assume "\<forall>q. a \<noteq> AddressInfo q"
  then show "fst (getOpenPort (Listening a) s) = Inl (Error ''Failed to get port'')"
    by (simp add: getOpenPort_no_address)
next
  assume tcp: "os = Listening (AddressInfo p) \<or> os = ListenError x"
  then have eq: "getOpenPort os s =
      (case os of Listening _ \<Rightarrow> (Inr p, emit [NetListen, NetClose] s)
       | ListenError _ \<Rightarrow> (Inl (SystemError x), emit [NetListen] s))"
    by (auto simp: getOpenPort_port getOpenPort_refused)
  from tcp eq show "server (snd (getOpenPort os s)) = server s"
    and "procs (snd (getOpenPort os s)) = procs s"
    and "next_pid (snd (getOpenPort os s)) = next_pid s"
    and "sockets (snd (getOpenPort os s)) = sockets s"
    and "tasks (snd (getOpenPort os s)) = tasks s"
    and "next_tid (snd (getOpenPort os s)) = next_tid s"
    and "trace (snd (getOpenPort os s)) =
             trace s @ (case os of Listening _ \<Rightarrow> [NetListen, NetClose]
                        | ListenError _ \<Rightarrow> [NetListen])"
    by auto
qed

theorem getOpenPort_allocates_witness:
  "getOpenPort (Listening (AddressInfo (Finite 5000))) example_running
     = (Inr (Finite 5000), emit [NetListen, NetClose] example_running)
   \<and> sockets (snd (getOpenPort (Listening (AddressInfo (Finite 5000))) example_running)) = 0
   \<and> server (snd (getOpenPort (Listening (AddressInfo (Finite 5000))) example_running))
       = Some example_server
   \<and> trace (snd (getOpenPort (Listening (AddressInfo (Finite 5000))) example_running))
       = trace example_running @ [NetListen, NetClose]
   \<and> getOpenPort (ListenError ''EADDRINUSE'') example_running
     = (Inl (SystemError ''EADDRINUSE''), emit [NetListen] example_running)
   \<and> sockets (snd (getOpenPort (ListenError ''EADDRINUSE'') example_running)) = 0
   \<and> trace (snd (getOpenPort (ListenError ''EADDRINUSE'') example_running))
       = trace example_running @ [NetListen]"
proof -
  have zero: "sockets example_running = 0"
    by (simp add: example_running_eq)
  from getOpenPort_allocates [of "Listening (AddressInfo (Finite 5000))" "Finite 5000"
      example_running "''EADDRINUSE''" AddressNull]
  have 1: "getOpenPort (Listening (AddressInfo (Finite 5000))) example_running
     = (Inr (Finite 5000), emit [NetListen, NetClose] example_running)
   \<and> sockets (snd (getOpenPort (Listening (AddressInfo (Finite 5000))) example_running))
       = sockets example_running
   \<and> server (snd (getOpenPort (Listening (AddressInfo (Finite 5000))) example_running))
       = server example_running
   \<and> trace (snd (getOpenPort (Listening (AddressInfo (Finite 5000))) example_running))
       = trace example_running @ [NetListen, NetClose]"
    by simp
  from getOpenPort_allocates [of "ListenError ''EADDRINUSE''" "Finite 5000"
      example_running "''EADDRINUSE''" AddressNull]
  have 2: "getOpenPort (ListenError ''EADDRINUSE'') example_running
     = (Inl (SystemError ''EADDRINUSE''), emit [NetListen] example_running)
   \<and> sockets (snd (getOpenPort (ListenError ''EADDRINUSE'') example_running))
       = sockets example_running
   \<and> trace (snd (getOpenPort (ListenError ''EADDRINUSE'') example_running))
       = trace example_running @ [NetListen]"
    by simp
  from 1 2 zero example_running_server show ?thesis
    by simp
qed

text \<open>
  The other branch of the callback, which a TCP server does not reach: there the promise
  is rejected without a call of \<open>srv.close\<close>.
\<close>

lemma getOpenPort_no_address_state:
  "getOpenPort (Listening AddressNull) s
     = (Inl (Error ''Failed to get port''), (emit [NetListen] s)\<lparr>sockets := sockets s + 1\<rparr>)
   \<and> getOpenPort (Listening (AddressPath path)) s
     = (Inl (Error ''Failed to get port''), (emit [NetListen] s)\<lparr>sockets := sockets s + 1\<rparr>)"
  by (simp add: getOpenPort_no_address)

subsection \<open>Resolving the port\<close>

lemma env_port_Some_iff:
  "env_port w = Some p \<longleftrightarrow>
     (\<exists>v. env w ''OPENCODE_PORT'' = Some v \<and> v \<noteq> [] \<and> Number w v = p \<and> p \<noteq> NaN \<and> p \<noteq> Finite 0)"
  by (auto simp: env_port_def parsedPort_def truthy_def isNaN_def split: option.splits)

lemma env_port_None_iff:
  "env_port w = None \<longleftrightarrow>
     (env w ''OPENCODE_PORT'' = None
      \<or> (\<exists>v. env w ''OPENCODE_PORT'' = Some v
            \<and> (v = [] \<or> Number w v = NaN \<or> Number w v = Finite 0)))"
  by (auto simp: env_port_def parsedPort_def truthy_def isNaN_def split: option.splits)

text \<open>
  Claim C9. In a call that gets past the reuse and directory checks, the port is
  \<open>Number(OPENCODE_PORT)\<close>, with no allocation, exactly when the variable is set and its
  number is neither NaN nor 0. Otherwise (unset, not a number, or 0) nothing is thrown:
  the call awaits \<open>getOpenPort\<close> and spawns with the port that the allocation returns.
  \<open>Number("")\<close> is 0 in JavaScript, which is the first hypothesis.
\<close>

theorem env_port_or_allocation:
  assumes "Number w [] = Finite 0" and "reusable s = None" and "accessSync w dir"
  shows "((\<exists>p pid. fst (startServer_begin w s dir) = AwaitingReady p pid) \<longleftrightarrow>
           (\<exists>v. env w ''OPENCODE_PORT'' = Some v \<and> Number w v \<noteq> NaN \<and> Number w v \<noteq> Finite 0))
    \<and> (\<forall>v. env w ''OPENCODE_PORT'' = Some v \<and> Number w v \<noteq> NaN \<and> Number w v \<noteq> Finite 0 \<longrightarrow>
          startServer_begin w s dir =
            (AwaitingReady (Number w v) (next_pid s),
             (emit [Access dir, Log ''info'' ''Starting opencode serve'', Spawn (next_pid s)] s)
               \<lparr>procs := (procs s)(next_pid s \<mapsto> spawned_child w dir (Number w v)),
                next_pid := Suc (next_pid s)\<rparr>))
    \<and> ((env w ''OPENCODE_PORT'' = None
         \<or> (\<exists>v. env w ''OPENCODE_PORT'' = Some v \<and> (Number w v = NaN \<or> Number w v = Finite 0))) \<longrightarrow>
          startServer_begin w s dir = (AwaitingPort, emit [Access dir] s)
          \<and> fst (startServer_port w (emit [Access dir] s) dir (Listening (AddressInfo q)))
              = AwaitingReady q (next_pid s))"
proof (intro conjI allI impI)
  show "(\<exists>p pid. fst (startServer_begin w s dir) = AwaitingReady p pid) \<longleftrightarrow>
           (\<exists>v. env w ''OPENCODE_PORT'' = Some v \<and> Number w v \<noteq> NaN \<and> Number w v \<noteq> Finite 0)"
  proof (cases "env_port w")
    case None
    with assms have "fst (startServer_begin w s dir) = AwaitingPort"
      by (simp add: startServer_begin_allocate)
    moreover from None assms(1)
    have "\<not> (\<exists>v. env w ''OPENCODE_PORT'' = Some v \<and> Number w v \<noteq> NaN \<and> Number w v \<noteq> Finite 0)"
      by (auto simp: env_port_None_iff)
    ultimately show ?thesis by simp
  next
    case (Some p)
    with assms have "fst (startServer_begin w s dir) = AwaitingReady p (next_pid s)"
      by (simp add: startServer_begin_env_port)
    moreover from Some
    have "\<exists>v. env w ''OPENCODE_PORT'' = Some v \<and> Number w v \<noteq> NaN \<and> Number w v \<noteq> Finite 0"
      by (auto simp: env_port_Some_iff)
    ultimately show ?thesis by simp
  qed
next
  fix v
  assume a: "env w ''OPENCODE_PORT'' = Some v \<and> Number w v \<noteq> NaN \<and> Number w v \<noteq> Finite 0"
  with assms(1) have "v \<noteq> []" by auto
  with a have "env_port w = Some (Number w v)" by (simp add: env_port_Some_iff)
  with assms show "startServer_begin w s dir =
            (AwaitingReady (Number w v) (next_pid s),
             (emit [Access dir, Log ''info'' ''Starting opencode serve'', Spawn (next_pid s)] s)
               \<lparr>procs := (procs s)(next_pid s \<mapsto> spawned_child w dir (Number w v)),
                next_pid := Suc (next_pid s)\<rparr>)"
    by (simp add: startServer_begin_env_port)
next
  assume "env w ''OPENCODE_PORT'' = None
         \<or> (\<exists>v. env w ''OPENCODE_PORT'' = Some v \<and> (Number w v = NaN \<or> Number w v = Finite 0))"
  then have "env_port w = None" by (auto simp: env_port_None_iff)
  with assms show "startServer_begin w s dir = (AwaitingPort, emit [Access dir] s)"
    by (simp add: startServer_begin_allocate)
next
  show "fst (startServer_port w (emit [Access dir] s) dir (Listening (AddressInfo q)))
              = AwaitingReady q (next_pid s)"
    by (simp add: startServer_port_spawn)
qed

lemma example_accessible: "accessSync (test_runtime v) ''/tmp/proj''"
  by (simp add: test_runtime_def)

lemma test_runtime_Number: "Number (test_runtime v) = decimal_Number"
  by (simp add: test_runtime_def)

lemma decimal_Number_examples:
  "decimal_Number [] = Finite 0"
  "decimal_Number ''4096'' = Finite 4096"
  "decimal_Number ''0'' = Finite 0"
  "decimal_Number ''auto'' = NaN"
  by (simp_all add: decimal_Number_def is_digit_def)

theorem env_port_or_allocation_witness:
  "fst (startServer_begin (test_runtime (Some ''4096'')) init_state ''/tmp/proj'')
     = AwaitingReady (Finite 4096) 0
   \<and> startServer_begin (test_runtime (Some ''0'')) init_state ''/tmp/proj''
     = (AwaitingPort, emit [Access ''/tmp/proj''] init_state)
   \<and> startServer_begin (test_runtime (Some ''auto'')) init_state ''/tmp/proj''
     = (AwaitingPort, emit [Access ''/tmp/proj''] init_state)
   \<and> startServer_begin (test_runtime None) init_state ''/tmp/proj''
     = (AwaitingPort, emit [Access ''/tmp/proj''] init_state)"
proof -
  have r: "reusable init_state = None"
    by (simp add: reusable_def init_state_def)
  have n: "Number (test_runtime v) [] = Finite 0" for v
    by (simp add: test_runtime_Number decimal_Number_examples)
  have e: "env (test_runtime (Some v)) ''OPENCODE_PORT'' = Some v" for v
    by (simp add: test_runtime_def)
  have e0: "env (test_runtime None) ''OPENCODE_PORT'' = None"
    by (simp add: test_runtime_def)
  from env_port_or_allocation [OF n r example_accessible, of "Some ''4096''"] e [of "''4096''"]
  have "startServer_begin (test_runtime (Some ''4096'')) init_state ''/tmp/proj'' =
            (AwaitingReady (Number (test_runtime (Some ''4096'')) ''4096'') (next_pid init_state),
             (emit [Access ''/tmp/proj'', Log ''info'' ''Starting opencode serve'',
                    Spawn (next_pid init_state)] init_state)
               \<lparr>procs := (procs init_state)(next_pid init_state \<mapsto>
                   spawned_child (test_runtime (Some ''4096'')) ''/tmp/proj''
                     (Number (test_runtime (Some ''4096'')) ''4096'')),
                next_pid := Suc (next_pid init_state)\<rparr>)"
    by (simp add: test_runtime_Number decimal_Number_examples)
  then have 1: "fst (startServer_begin (test_runtime (Some ''4096'')) init_state ''/tmp/proj'')
     = AwaitingReady (Finite 4096) 0"
    by (simp add: test_runtime_Number decimal_Number_examples init_state_def)
  from env_port_or_allocation [OF n r example_accessible, of "Some ''0''"] e [of "''0''"]
  have 2: "startServer_begin (test_runtime (Some ''0'')) init_state ''/tmp/proj''
     = (AwaitingPort, emit [Access ''/tmp/proj''] init_state)"
    by (simp add: test_runtime_Number decimal_Number_examples)
  from env_port_or_allocation [OF n r example_accessible, of "Some ''auto''"] e [of "''auto''"]
  have 3: "startServer_begin (test_runtime (Some ''auto'')) init_state ''/tmp/proj''
     = (AwaitingPort, emit [Access ''/tmp/proj''] init_state)"
    by (simp add: test_runtime_Number decimal_Number_examples)
  from env_port_or_allocation [OF n r example_accessible, of None] e0
  have 4: "startServer_begin (test_runtime None) init_state ''/tmp/proj''
     = (AwaitingPort, emit [Access ''/tmp/proj''] init_state)"
    by simp
  from 1 2 3 4 show ?thesis by simp
qed

subsection \<open>The spawned child\<close>

lemma waitForServer_from_no_spawn:
  "Spawn pid \<notin> set (snd (waitForServer_from w p m net i))"
proof (induction w p m net i rule: waitForServer_from.induct)
  case (1 w p m net i)
  show ?case
  proof (cases "i < m \<and> \<not> status_ok (net i)")
    case True
    with "1.IH" show ?thesis
      by (subst waitForServer_from.simps)
         (cases "waitForServer_from w p m net (Suc i)", auto)
  next
    case False
    then show ?thesis
      by (subst waitForServer_from.simps) auto
  qed
qed

lemma startServer_ready_frame:
  "procs (snd (startServer_ready w s dir p pid net)) = procs s"
  "next_pid (snd (startServer_ready w s dir p pid net)) = next_pid s"
  "sockets (snd (startServer_ready w s dir p pid net)) = sockets s"
  "tasks (snd (startServer_ready w s dir p pid net)) = tasks s"
  "next_tid (snd (startServer_ready w s dir p pid net)) = next_tid s"
  "trace (snd (startServer_ready w s dir p pid net)) =
     trace s @ snd (waitForServer w p 30 net)
       @ (case fst (waitForServer w p 30 net) of Inl _ \<Rightarrow> [] | Inr _ \<Rightarrow> [Log ''info'' ''Server ready''])"
  by (cases "waitForServer w p 30 net"; cases "fst (waitForServer w p 30 net)";
      simp add: startServer_ready_ok startServer_ready_timeout)+

lemma startServer_ready_no_spawn:
  "Spawn x \<in> set (trace (snd (startServer_ready w s dir p pid net))) \<longleftrightarrow> Spawn x \<in> set (trace s)"
  by (auto simp: startServer_ready_frame waitForServer_def waitForServer_from_no_spawn
      split: sum.splits)

lemma stringify_opencode_config:
  \<open>stringify opencode_config =
     ''{"$schema":"https://opencode.ai/config.json","lsp":false,"formatter":false,"permission":{"edit":"allow","bash":"allow","webfetch":"allow"}}''\<close>
  by (simp add: opencode_config_def quote_def escape_char_def)

lemma opencodePath_cases:
  "(\<forall>x. env w ''OPENCODE_PATH'' = Some x \<and> x \<noteq> [] \<longrightarrow> opencodePath w = x)
   \<and> (env w ''OPENCODE_PATH'' = None \<or> env w ''OPENCODE_PATH'' = Some [] \<longrightarrow>
        opencodePath w =
          (case env w ''HOME'' of Some h \<Rightarrow> h | None \<Rightarrow> ''undefined'') @ ''/.opencode/bin/opencode'')"
  by (auto simp: opencodePath_def default_opencodePath_def)

text \<open>The child that \<open>startServer\<close> spawns when it spawns one, and the port it is told.\<close>

lemma startServer_spawns:
  assumes "startServer w os net s dir = (r, s')"
    and "Spawn pid \<in> set (drop (length (trace s)) (trace s'))"
  shows "pid = next_pid s \<and>
    (\<exists>p. (env_port w = Some p \<or> env_port w = None \<and> os = Listening (AddressInfo p))
        \<and> procs s' pid = Some (spawned_child w dir p))"
proof (cases "reusable s")
  case (Some srv)
  with assms show ?thesis by (auto simp: startServer_reuse)
next
  case None
  show ?thesis
  proof (cases "accessSync w dir")
    case False
    with None assms show ?thesis by (auto simp: startServer_inaccessible)
  next
    case True
    show ?thesis
    proof (cases "env_port w")
      case (Some p)
      let ?s1 = "(emit [Access dir, Log ''info'' ''Starting opencode serve'', Spawn (next_pid s)] s)
        \<lparr>procs := (procs s)(next_pid s \<mapsto> spawned_child w dir p), next_pid := Suc (next_pid s)\<rparr>"
      from None True Some assms(1)
      have s': "s' = snd (startServer_ready w ?s1 dir p (next_pid s) net)"
        by (simp add: startServer_def startServer_begin_env_port)
      with assms(2) have "Spawn pid \<in> set (drop (length (trace s))
          (trace s @ [Access dir, Log ''info'' ''Starting opencode serve'', Spawn (next_pid s)]
            @ snd (waitForServer w p 30 net)
            @ (case fst (waitForServer w p 30 net) of Inl _ \<Rightarrow> [] | Inr _ \<Rightarrow> [Log ''info'' ''Server ready''])))"
        by (simp add: startServer_ready_frame)
      then have "pid = next_pid s"
        by (auto simp: waitForServer_def waitForServer_from_no_spawn split: sum.splits)
      with s' Some show ?thesis
        by (simp add: startServer_ready_frame)
    next
      case no_env: None
      show ?thesis
      proof (cases os)
        case (ListenError e)
        with None True no_env assms show ?thesis
          by (auto simp: startServer_def startServer_begin_allocate startServer_port_refused)
      next
        case (Listening a)
        show ?thesis
        proof (cases "\<exists>p. a = AddressInfo p")
          case False
          then have "getOpenPort (Listening a) (emit [Access dir] s) =
            (Inl (Error ''Failed to get port''),
             (emit [NetListen] (emit [Access dir] s))\<lparr>sockets := sockets (emit [Access dir] s) + 1\<rparr>)"
            by (intro getOpenPort_no_address) simp
          with None True no_env Listening assms show ?thesis
            by (auto simp: startServer_def startServer_begin_allocate startServer_port_def)
        next
          case True': True
          then obtain p where a: "a = AddressInfo p" by blast
          let ?s1 = "(emit [NetListen, NetClose, Log ''info'' ''Starting opencode serve'',
                Spawn (next_pid s)] (emit [Access dir] s))
              \<lparr>procs := (procs s)(next_pid s \<mapsto> spawned_child w dir p), next_pid := Suc (next_pid s)\<rparr>"
          from None True no_env Listening a assms(1)
          have s': "s' = snd (startServer_ready w ?s1 dir p (next_pid s) net)"
            by (simp add: startServer_def startServer_begin_allocate startServer_port_spawn)
          with assms(2) have "Spawn pid \<in> set (drop (length (trace s))
              (trace s @ [Access dir, NetListen, NetClose, Log ''info'' ''Starting opencode serve'',
                  Spawn (next_pid s)]
                @ snd (waitForServer w p 30 net)
                @ (case fst (waitForServer w p 30 net) of Inl _ \<Rightarrow> [] | Inr _ \<Rightarrow> [Log ''info'' ''Server ready''])))"
            by (simp add: startServer_ready_frame)
          then have "pid = next_pid s"
            by (auto simp: waitForServer_def waitForServer_from_no_spawn split: sum.splits)
          with s' no_env Listening a show ?thesis
            by (simp add: startServer_ready_frame)
        qed
      qed
    qed
  qed
qed


text \<open>
  Claim C7. Whenever \<open>startServer(dir)\<close> spawns a child, the command is
  \<open>OPENCODE_PATH\<close> if that is set and not empty and \<open>$HOME/.opencode/bin/opencode\<close>
  otherwise; the arguments are \<open>serve\<close>, \<open>--port\<close> and the resolved port as a string (the
  one of \<open>OPENCODE_PORT\<close>, or else the allocated one); the working directory is \<open>dir\<close>;
  and the environment is \<open>process.env\<close> with \<open>OPENCODE_CONFIG_CONTENT\<close> set to the JSON
  text of the configuration: the schema reference, \<open>lsp\<close> and \<open>formatter\<close> false, and
  \<open>edit\<close>, \<open>bash\<close> and \<open>webfetch\<close> allowed.
\<close>

theorem spawn_invocation:
  assumes \<open>startServer w os net s dir = (r, s')\<close>
    and \<open>Spawn pid \<in> set (drop (length (trace s)) (trace s'))\<close>
  shows \<open>\<exists>p c. procs s' pid = Some c
    \<and> (env_port w = Some p \<or> env_port w = None \<and> os = Listening (AddressInfo p))
    \<and> spawnfile c = opencodePath w
    \<and> (\<forall>x. env w ''OPENCODE_PATH'' = Some x \<and> x \<noteq> [] \<longrightarrow> opencodePath w = x)
    \<and> (env w ''OPENCODE_PATH'' = None \<or> env w ''OPENCODE_PATH'' = Some [] \<longrightarrow>
          opencodePath w =
            (case env w ''HOME'' of Some h \<Rightarrow> h | None \<Rightarrow> ''undefined'') @ ''/.opencode/bin/opencode'')
    \<and> spawnargs c = [''serve'', ''--port'', toString w p]
    \<and> cwd c = dir
    \<and> spawn_env c = (env w)(''OPENCODE_CONFIG_CONTENT'' \<mapsto>
          ''{"$schema":"https://opencode.ai/config.json","lsp":false,"formatter":false,"permission":{"edit":"allow","bash":"allow","webfetch":"allow"}}'')
    \<and> spawn_env c ''OPENCODE_CONFIG_CONTENT'' = Some (stringify opencode_config)\<close>
proof -
  from startServer_spawns [OF assms] obtain p where
    p: "env_port w = Some p \<or> env_port w = None \<and> os = Listening (AddressInfo p)"
    and c: "procs s' pid = Some (spawned_child w dir p)"
    by blast
  have "spawn_env (spawned_child w dir p) =
      (env w)(''OPENCODE_CONFIG_CONTENT'' \<mapsto> stringify opencode_config)"
    by (simp add: spawned_child_def)
  with p c opencodePath_cases [of w] show ?thesis
    by (intro exI [of _ p] exI [of _ "spawned_child w dir p"])
       (simp add: spawned_child_def stringify_opencode_config)
qed


lemma example_start:
  "startServer example_runtime (ListenError ''EMFILE'') answers_ok init_state ''/tmp/proj'' =
     (Returned example_server,
      \<lparr>server = Some example_server,
       procs = [0 \<mapsto> spawned_child example_runtime ''/tmp/proj'' (Finite 4096)],
       next_pid = 1, sockets = 0, tasks = Map.empty, next_tid = 0,
       trace = [Access ''/tmp/proj'', Log ''info'' ''Starting opencode serve'', Spawn 0,
                Fetch ''http://127.0.0.1:4096/session'' 2000 (Response 200),
                Log ''info'' ''Server ready'']\<rparr>)"
  by (simp add: startServer_def run_defs waitForServer_from.simps answers_ok_def example_defs
      example_server_def)

theorem spawn_invocation_witness:
  \<open>\<exists>c. procs (snd (startServer example_runtime (ListenError ''EMFILE'') answers_ok init_state ''/tmp/proj'')) 0
         = Some c
    \<and> spawnfile c = ''/home/bot/.opencode/bin/opencode''
    \<and> spawnargs c = [''serve'', ''--port'', ''4096'']
    \<and> cwd c = ''/tmp/proj''
    \<and> spawn_env c ''OPENCODE_CONFIG_CONTENT'' = Some
          ''{"$schema":"https://opencode.ai/config.json","lsp":false,"formatter":false,"permission":{"edit":"allow","bash":"allow","webfetch":"allow"}}''
    \<and> spawn_env c ''HOME'' = Some ''/home/bot''\<close>
proof -
  let ?w = example_runtime
  have port: "env_port ?w = Some (Finite 4096)"
    by (simp add: env_port_Some_iff example_runtime_def test_runtime_def decimal_Number_examples)
  have "Spawn 0 \<in> set (drop (length (trace init_state))
      [Access ''/tmp/proj'', Log ''info'' ''Starting opencode serve'', Spawn 0,
       Fetch ''http://127.0.0.1:4096/session'' 2000 (Response 200), Log ''info'' ''Server ready''])"
    by (simp add: init_state_def)
  with spawn_invocation [OF example_start, of 0] port
  obtain c where "procs (snd (startServer ?w (ListenError ''EMFILE'') answers_ok init_state ''/tmp/proj'')) 0 = Some c"
    "spawnfile c = opencodePath ?w"
    "spawnargs c = [''serve'', ''--port'', toString ?w (Finite 4096)]" "cwd c = ''/tmp/proj''"
    \<open>spawn_env c = (env ?w)(''OPENCODE_CONFIG_CONTENT'' \<mapsto>
          ''{"$schema":"https://opencode.ai/config.json","lsp":false,"formatter":false,"permission":{"edit":"allow","bash":"allow","webfetch":"allow"}}'')\<close>
    by (auto simp: example_start)
  then show ?thesis
    by (simp add: opencodePath_def default_opencodePath_def example_defs)
qed

subsection \<open>Ready before exposed: the invariant\<close>

lemma probe_ok_append [simp]:
  "probe_ok w p (xs @ ys) \<longleftrightarrow> probe_ok w p xs \<or> probe_ok w p ys"
  by (simp add: probe_ok_def list_ex_iff) blast

lemma ready_spawned: "ready w srv tr \<Longrightarrow> Spawn (process srv) \<in> set tr"
proof (rule ccontr)
  assume r: "ready w srv tr" and "Spawn (process srv) \<notin> set tr"
  then have "dropWhile (\<lambda>e. e \<noteq> Spawn (process srv)) tr = []"
    by (auto simp: dropWhile_eq_Nil_conv)
  with r show False by (simp add: ready_def probe_ok_def)
qed

lemma ready_append: "ready w srv tr \<Longrightarrow> ready w srv (tr @ es)"
proof -
  assume r: "ready w srv tr"
  then have "Spawn (process srv) \<in> set tr" by (rule ready_spawned)
  then have "dropWhile (\<lambda>e. e \<noteq> Spawn (process srv)) (tr @ es)
      = dropWhile (\<lambda>e. e \<noteq> Spawn (process srv)) tr @ es"
    by (intro dropWhile_append1) auto
  with r show ?thesis by (simp add: ready_def)
qed

lemma ready_after_spawn:
  assumes "Spawn (process srv) \<in> set tr" and "probe_ok w (port srv) es"
  shows "ready w srv (tr @ es)"
proof -
  from assms(1) have "dropWhile (\<lambda>e. e \<noteq> Spawn (process srv)) (tr @ es)
      = dropWhile (\<lambda>e. e \<noteq> Spawn (process srv)) tr @ es"
    by (intro dropWhile_append1) auto
  with assms(2) show ?thesis by (simp add: ready_def)
qed

lemma exposures_ready_append:
  "exposures_ready w pre (xs @ ys) \<longleftrightarrow>
     exposures_ready w pre xs \<and> exposures_ready w (pre @ xs) ys"
  by (induction xs arbitrary: pre) auto

lemma exposures_ready_quiet:
  "\<forall>e\<in>set es. \<not> is_Settle e \<Longrightarrow> exposures_ready w pre es"
  by (induction es arbitrary: pre) (auto simp: is_Settle_def split: effect.splits)

lemma exposures_readyD:
  "exposures_ready w [] (pre @ Settle tid (Inr srv) # post) \<Longrightarrow> ready w srv pre"
  by (simp add: exposures_ready_append)

lemma waitForServer_from_probe_ok:
  "waitForServer_from w p m net i = (Inr b, es) \<Longrightarrow> probe_ok w p es"
proof (induction w p m net i arbitrary: es rule: waitForServer_from.induct)
  case (1 w p m net i)
  show ?case
  proof (cases "i < m")
    case False
    with "1.prems" show ?thesis
      by (subst (asm) waitForServer_from.simps) simp
  next
    case lt: True
    show ?thesis
    proof (cases "status_ok (net i)")
      case True
      with lt "1.prems" show ?thesis
        by (subst (asm) waitForServer_from.simps) (auto simp: probe_ok_def)
    next
      case False
      with lt "1.prems" obtain es' where
        rec: "waitForServer_from w p m net (Suc i) = (Inr b, es')"
        and es: "es = Fetch (session_url w p) 2000 (net i) # Sleep 1000 # es'"
        by (subst (asm) waitForServer_from.simps)
           (cases "waitForServer_from w p m net (Suc i)", auto)
      from "1.IH" [OF lt False rec] have "probe_ok w p es'" .
      with es show ?thesis by (simp add: probe_ok_def)
    qed
  qed
qed

lemma waitForServer_from_quiet:
  "\<forall>e\<in>set (snd (waitForServer_from w p m net i)). \<not> is_Settle e"
proof (induction w p m net i rule: waitForServer_from.induct)
  case (1 w p m net i)
  show ?case
  proof (cases "i < m \<and> \<not> status_ok (net i)")
    case True
    with "1.IH" show ?thesis
      by (subst waitForServer_from.simps)
         (cases "waitForServer_from w p m net (Suc i)", auto simp: is_Settle_def)
  next
    case False
    then show ?thesis
      by (subst waitForServer_from.simps) (auto simp: is_Settle_def)
  qed
qed

text \<open>Appending effects that hand nothing over keeps the invariant.\<close>

lemma ready_inv_emit:
  "ready_inv w s \<Longrightarrow> \<forall>e\<in>set es. \<not> is_Settle e \<Longrightarrow> ready_inv w (emit es s)"
  by (auto simp: ready_inv_def ready_append exposures_ready_append exposures_ready_quiet)

lemma ready_inv_frame [simp]:
  "ready_inv w (s\<lparr>next_tid := n\<rparr>) = ready_inv w s"
  "ready_inv w (s\<lparr>procs := ps\<rparr>) = ready_inv w s"
  "ready_inv w (s\<lparr>next_pid := k\<rparr>) = ready_inv w s"
  "ready_inv w (s\<lparr>sockets := k\<rparr>) = ready_inv w s"
  by (simp_all add: ready_inv_def)

lemma ready_inv_clear: "ready_inv w s \<Longrightarrow> ready_inv w (s\<lparr>server := None\<rparr>)"
  by (simp add: ready_inv_def)

lemma ready_inv_log: "ready_inv w s \<Longrightarrow> ready_inv w (log l m s)"
  unfolding log_def by (rule ready_inv_emit) (simp_all add: is_Settle_def)

lemma ready_inv_spawn:
  "ready_inv w s \<Longrightarrow> ready_inv w (snd (startServer_spawn w dir p s))"
  by (simp add: startServer_spawn_eq ready_inv_emit is_Settle_def)

lemma ready_inv_begin:
  assumes "ready_inv w s" and "startServer_begin w s dir = (r, s1)"
  shows "ready_inv w s1
    \<and> (\<forall>srv. r = Returned srv \<longrightarrow> server s1 = Some srv)
    \<and> (\<forall>p pid. r = AwaitingReady p pid \<longrightarrow> Spawn pid \<in> set (trace s1))
    \<and> tasks s1 = tasks s"
proof (cases "reusable s")
  case (Some srv)
  with assms show ?thesis
    by (auto simp: startServer_begin_reuse ready_inv_log dest: reusable_SomeD)
next
  case None
  show ?thesis
  proof (cases "accessSync w dir")
    case False
    with None assms show ?thesis
      by (auto simp: startServer_begin_inaccessible ready_inv_emit is_Settle_def)
  next
    case True
    show ?thesis
    proof (cases "env_port w")
      case (Some p)
      with None True assms show ?thesis
        by (auto simp: startServer_begin_env_port ready_inv_emit is_Settle_def)
    next
      case no_env: None
      with None True assms show ?thesis
        by (auto simp: startServer_begin_allocate ready_inv_emit is_Settle_def)
    qed
  qed
qed

lemma ready_inv_port:
  assumes "ready_inv w s" and "startServer_port w s dir os = (r, s1)"
  shows "ready_inv w s1
    \<and> (\<forall>srv. r \<noteq> Returned srv)
    \<and> (\<forall>p pid. r = AwaitingReady p pid \<longrightarrow> Spawn pid \<in> set (trace s1))
    \<and> tasks s1 = tasks s"
proof (cases os)
  case (ListenError e)
  with assms show ?thesis
    by (auto simp: startServer_port_refused ready_inv_emit is_Settle_def)
next
  case (Listening a)
  show ?thesis
  proof (cases "\<exists>p. a = AddressInfo p")
    case True
    with Listening assms show ?thesis
      by (auto simp: startServer_port_spawn ready_inv_emit is_Settle_def)
  next
    case False
    then have "getOpenPort (Listening a) s =
      (Inl (Error ''Failed to get port''), (emit [NetListen] s)\<lparr>sockets := sockets s + 1\<rparr>)"
      by (intro getOpenPort_no_address) simp
    with Listening assms show ?thesis
      by (auto simp: startServer_port_def ready_inv_emit is_Settle_def)
  qed
qed

lemma ready_inv_ready:
  assumes "ready_inv w s" and "Spawn pid \<in> set (trace s)"
    and "startServer_ready w s dir p pid net = (r, s1)"
  shows "ready_inv w s1
    \<and> (\<forall>srv. r = Returned srv \<longrightarrow> server s1 = Some srv)
    \<and> r \<noteq> AwaitingPort \<and> (\<forall>q x. r \<noteq> AwaitingReady q x)
    \<and> tasks s1 = tasks s"
proof (cases "waitForServer w p 30 net")
  case (Pair res es)
  have quiet: "\<forall>e\<in>set es. \<not> is_Settle e"
    using waitForServer_from_quiet [of w p 30 net 0] Pair by (simp add: waitForServer_def)
  show ?thesis
  proof (cases res)
    case (Inl e)
    with Pair assms quiet show ?thesis
      by (auto simp: startServer_ready_timeout ready_inv_emit)
  next
    case (Inr b)
    let ?srv = "\<lparr>process = pid, client = base_url w p, clientV2 = base_url w p,
                port = p, directory = dir\<rparr>"
    from Pair Inr have ok: "probe_ok w p es"
      by (auto simp: waitForServer_def dest: waitForServer_from_probe_ok)
    from Pair Inr assms(3)
    have r: "r = Returned ?srv"
      and s1: "s1 = (emit (es @ [Log ''info'' ''Server ready'']) s)\<lparr>server := Some ?srv\<rparr>"
      by (auto simp: startServer_ready_ok)
    from quiet have "ready_inv w (emit (es @ [Log ''info'' ''Server ready'']) s)"
      by (intro ready_inv_emit assms(1)) (auto simp: is_Settle_def)
    moreover from assms(2) ok have "ready w ?srv (trace s @ es @ [Log ''info'' ''Server ready''])"
      by (intro ready_after_spawn) simp_all
    ultimately have "ready_inv w s1"
      unfolding s1 by (simp add: ready_inv_def)
    with r s1 show ?thesis by simp
  qed
qed

lemma ready_inv_settle:
  assumes "ready_inv w s1"
    and "\<forall>srv. r = Returned srv \<longrightarrow> server s1 = Some srv"
    and "\<forall>p pid. r = AwaitingReady p pid \<longrightarrow> Spawn pid \<in> set (trace s1)"
  shows "ready_inv w (settle tid d dir (r, s1))"
proof (cases r)
  case (Returned srv)
  with assms have "ready w srv (trace s1)" by (simp add: ready_inv_def)
  with assms(1) Returned show ?thesis
    by (auto simp: settle_def ready_inv_def Let_def exposures_ready_append ready_append)
next
  case (Thrown e)
  with assms(1) show ?thesis
    by (auto simp: settle_def ready_inv_def Let_def exposures_ready_append ready_append)
next
  case AwaitingPort
  with assms(1) show ?thesis
    by (auto simp: settle_def ready_inv_def)
next
  case (AwaitingReady p pid)
  with assms show ?thesis
    by (auto simp: settle_def ready_inv_def)
qed

lemma ready_inv_launch: "ready_inv w s \<Longrightarrow> ready_inv w (launch w d dir s)"
proof -
  assume i: "ready_inv w s"
  obtain r s1 where b: "startServer_begin w (s\<lparr>next_tid := Suc (next_tid s)\<rparr>) dir = (r, s1)"
    by (cases "startServer_begin w (s\<lparr>next_tid := Suc (next_tid s)\<rparr>) dir")
  from i have "ready_inv w (s\<lparr>next_tid := Suc (next_tid s)\<rparr>)" by simp
  from ready_inv_begin [OF this b] show ?thesis
    unfolding launch_def b by (intro ready_inv_settle) auto
qed

lemma ready_inv_stop: "ready_inv w s \<Longrightarrow> ready_inv w (stopServer s)"
  by (auto simp: stopServer_def kill_def ready_inv_clear ready_inv_log ready_inv_emit
      is_Settle_def split: option.splits)

lemma ready_inv_exit: "ready_inv w s \<Longrightarrow> ready_inv w (proc_exit w pid code s)"
  by (auto simp: proc_exit_def on_exit_def exit_cleared_def Let_def ready_inv_clear ready_inv_log
      ready_inv_launch split: option.splits)

lemma ready_inv_resume_port: "ready_inv w s \<Longrightarrow> ready_inv w (resume_port w tid os s)"
proof -
  assume i: "ready_inv w s"
  show ?thesis
  proof (cases "tasks s tid")
    case None
    with i show ?thesis by (simp add: resume_port_def)
  next
    case (Some t)
    show ?thesis
    proof (cases "t_phase t")
      case AwaitPort
      obtain r s1 where p: "startServer_port w s (t_directory t) os = (r, s1)"
        by (cases "startServer_port w s (t_directory t) os")
      from ready_inv_port [OF i p] have "ready_inv w (settle tid (t_detached t) (t_directory t) (r, s1))"
        by (intro ready_inv_settle) auto
      with Some AwaitPort p show ?thesis by (simp add: resume_port_def)
    next
      case (AwaitReady p pid)
      with Some i show ?thesis by (simp add: resume_port_def)
    qed
  qed
qed

lemma ready_inv_resume_ready: "ready_inv w s \<Longrightarrow> ready_inv w (resume_ready w tid net s)"
proof -
  assume i: "ready_inv w s"
  show ?thesis
  proof (cases "tasks s tid")
    case None
    with i show ?thesis by (simp add: resume_ready_def)
  next
    case (Some t)
    show ?thesis
    proof (cases "t_phase t")
      case AwaitPort
      with Some i show ?thesis by (simp add: resume_ready_def)
    next
      case (AwaitReady p pid)
      with i Some have sp: "Spawn pid \<in> set (trace s)"
        by (auto simp: ready_inv_def)
      obtain r s1 where p: "startServer_ready w s (t_directory t) p pid net = (r, s1)"
        by (cases "startServer_ready w s (t_directory t) p pid net")
      from ready_inv_ready [OF i sp p]
      have "ready_inv w (settle tid (t_detached t) (t_directory t) (r, s1))"
        by (intro ready_inv_settle) auto
      with Some AwaitReady p show ?thesis by (simp add: resume_ready_def)
    qed
  qed
qed

lemma ready_inv_step: "ready_inv w s \<Longrightarrow> ready_inv w (step w s ev)"
  by (cases ev)
     (simp_all add: ready_inv_launch ready_inv_stop ready_inv_resume_port ready_inv_resume_ready
       ready_inv_exit)

lemma ready_inv_run: "ready_inv w s \<Longrightarrow> ready_inv w (run w s evs)"
  unfolding run_def by (induction evs arbitrary: s) (simp_all add: ready_inv_step)

lemma ready_inv_init: "ready_inv w init_state"
  by (simp add: ready_inv_def init_state_def)

subsection \<open>Ready before exposed: one call, and every run\<close>

lemma waitForServer_from_True:
  "waitForServer_from w p m net i = (Inr b, es) \<Longrightarrow> b"
proof (induction w p m net i arbitrary: es rule: waitForServer_from.induct)
  case (1 w p m net i)
  show ?case
  proof (cases "i < m \<and> \<not> status_ok (net i)")
    case True
    with "1.prems" obtain es' where "waitForServer_from w p m net (Suc i) = (Inr b, es')"
      by (subst (asm) waitForServer_from.simps)
         (cases "waitForServer_from w p m net (Suc i)", auto)
    with True "1.IH" show ?thesis by blast
  next
    case False
    with "1.prems" show ?thesis
      by (subst (asm) waitForServer_from.simps) (auto split: if_splits)
  qed
qed

text \<open>
  A call that does not reuse either throws with the slot untouched, or reaches its third
  segment with its child spawned and the slot still untouched.
\<close>

lemma startServer_reaches_ready:
  assumes "reusable s = None" and "startServer w os net s dir = (r, s')"
  shows "(\<exists>e. r = Thrown e \<and> server s' = server s)
    \<or> (\<exists>s1 p. startServer_ready w s1 dir p (next_pid s) net = (r, s')
          \<and> Spawn (next_pid s) \<in> set (trace s1) \<and> server s1 = server s)"
proof (cases "accessSync w dir")
  case False
  with assms show ?thesis by (auto simp: startServer_inaccessible)
next
  case True
  show ?thesis
  proof (cases "env_port w")
    case (Some p)
    with assms True show ?thesis
      by (simp add: startServer_def startServer_begin_env_port)
         (rule disjI2, intro exI conjI, assumption, simp_all)
  next
    case no_env: None
    show ?thesis
    proof (cases os)
      case (ListenError e)
      with assms True no_env show ?thesis
        by (auto simp: startServer_def startServer_begin_allocate startServer_port_refused)
    next
      case (Listening a)
      show ?thesis
      proof (cases "\<exists>p. a = AddressInfo p")
        case False
        then have "getOpenPort (Listening a) (emit [Access dir] s) =
          (Inl (Error ''Failed to get port''),
           (emit [NetListen] (emit [Access dir] s))\<lparr>sockets := sockets (emit [Access dir] s) + 1\<rparr>)"
          by (intro getOpenPort_no_address) simp
        with assms True no_env Listening show ?thesis
          by (auto simp: startServer_def startServer_begin_allocate startServer_port_def)
      next
        case True': True
        then obtain p where "a = AddressInfo p" by blast
        with assms True no_env Listening show ?thesis
          by (simp add: startServer_def startServer_begin_allocate startServer_port_spawn)
             (rule disjI2, intro exI conjI, assumption, simp_all)
      qed
    qed
  qed
qed

lemma startServer_ready_cases:
  assumes "startServer_ready w s1 dir p pid net = (r, s')"
  shows "(\<exists>e es. r = Thrown e \<and> waitForServer w p 30 net = (Inl e, es) \<and> server s' = server s1)
    \<or> (\<exists>es. r = Returned \<lparr>process = pid, client = base_url w p, clientV2 = base_url w p,
                port = p, directory = dir\<rparr>
          \<and> waitForServer w p 30 net = (Inr True, es)
          \<and> server s' = Some \<lparr>process = pid, client = base_url w p, clientV2 = base_url w p,
                port = p, directory = dir\<rparr>
          \<and> trace s' = trace s1 @ es @ [Log ''info'' ''Server ready''])"
proof (cases "waitForServer w p 30 net")
  case (Pair res es)
  show ?thesis
  proof (cases res)
    case (Inl e)
    with Pair assms show ?thesis by (auto simp: startServer_ready_timeout)
  next
    case (Inr b)
    with Pair have b by (auto simp: waitForServer_def dest: waitForServer_from_True)
    with Pair Inr assms show ?thesis by (auto simp: startServer_ready_ok)
  qed
qed

lemma startServer_returned:
  assumes "reusable s = None" and "startServer w os net s dir = (Returned inst, s')"
  shows "server s' = Some inst \<and> fst (waitForServer w (port inst) 30 net) = Inr True
    \<and> ready w inst (trace s')"
proof -
  from startServer_reaches_ready [OF assms] obtain s1 p where
    seg: "startServer_ready w s1 dir p (next_pid s) net = (Returned inst, s')"
    and sp: "Spawn (next_pid s) \<in> set (trace s1)"
    by auto
  from startServer_ready_cases [OF seg] obtain es where
    inst: "inst = \<lparr>process = next_pid s, client = base_url w p, clientV2 = base_url w p,
                port = p, directory = dir\<rparr>"
    and wait: "waitForServer w p 30 net = (Inr True, es)"
    and srv: "server s' = Some inst"
    and tr: "trace s' = trace s1 @ es @ [Log ''info'' ''Server ready'']"
    by auto
  from wait have "probe_ok w p es"
    by (auto simp: waitForServer_def dest: waitForServer_from_probe_ok)
  with sp inst have "ready w inst (trace s1 @ es @ [Log ''info'' ''Server ready''])"
    by (intro ready_after_spawn) simp_all
  with inst wait srv tr show ?thesis by simp
qed

lemma startServer_thrown:
  assumes "startServer w os net s dir = (Thrown e, s')"
  shows "server s' = server s"
proof (cases "reusable s")
  case (Some srv)
  with assms show ?thesis by (simp add: startServer_reuse)
next
  case None
  from startServer_reaches_ready [OF None assms] show ?thesis
    by (auto dest: startServer_ready_cases)
qed

text \<open>
  Claim C1. In every state the event loop reaches from the initial one, the instance that
  \<open>getServer\<close> returns is ready in the history: after its child was spawned, a probe of
  its port was answered with a status below 500. Every instance handed to a caller of
  \<open>startServer\<close> was ready in the history before the hand-over. For one call run to its
  end: if it spawns and returns an instance, \<open>waitForServer\<close> on that port returned true
  and the slot holds the instance; if it throws, the slot is as it was.
\<close>

theorem ready_before_exposed:
  "(getServer (run w init_state evs) = Some srv \<longrightarrow> ready w srv (trace (run w init_state evs)))
   \<and> (trace (run w init_state evs) = pre @ Settle tid (Inr srv) # post \<longrightarrow> ready w srv pre)
   \<and> (reusable s = None \<and> startServer w os net s dir = (Returned inst, s') \<longrightarrow>
        server s' = Some inst \<and> fst (waitForServer w (port inst) 30 net) = Inr True
        \<and> ready w inst (trace s'))
   \<and> (startServer w os net s dir = (Thrown e, s') \<longrightarrow> server s' = server s)"
proof -
  have inv: "ready_inv w (run w init_state evs)"
    by (intro ready_inv_run ready_inv_init)
  then have "getServer (run w init_state evs) = Some srv \<longrightarrow> ready w srv (trace (run w init_state evs))"
    by (simp add: ready_inv_def getServer_def)
  moreover have "trace (run w init_state evs) = pre @ Settle tid (Inr srv) # post \<longrightarrow> ready w srv pre"
  proof
    assume "trace (run w init_state evs) = pre @ Settle tid (Inr srv) # post"
    with inv have "exposures_ready w [] (pre @ Settle tid (Inr srv) # post)"
      by (simp add: ready_inv_def)
    then show "ready w srv pre" by (rule exposures_readyD)
  qed
  ultimately show ?thesis
    by (auto dest: startServer_returned startServer_thrown)
qed

theorem ready_before_exposed_witness:
  "getServer example_running = Some example_server
   \<and> ready example_runtime example_server (trace example_running)
   \<and> ready example_runtime example_server
       [Access ''/tmp/proj'', Log ''info'' ''Starting opencode serve'', Spawn 0,
        Fetch ''http://127.0.0.1:4096/session'' 2000 (Response 200), Log ''info'' ''Server ready'']
   \<and> fst (waitForServer example_runtime (Finite 4096) 30 answers_ok) = Inr True"
proof -
  let ?evs = "[CallStart ''/tmp/proj'', ReadyDone 0 (\<lambda>_. Response 200)]"
  have g: "getServer (run example_runtime init_state ?evs) = Some example_server"
    using example_running_server by (simp add: getServer_def example_running_def)
  have t: "trace (run example_runtime init_state ?evs) =
      [Access ''/tmp/proj'', Log ''info'' ''Starting opencode serve'', Spawn 0,
        Fetch ''http://127.0.0.1:4096/session'' 2000 (Response 200), Log ''info'' ''Server ready'']
      @ Settle 0 (Inr example_server) # []"
    using example_running_eq by (simp add: example_running_def example_server_def)
  have r: "reusable init_state = None"
    by (simp add: reusable_def init_state_def)
  from ready_before_exposed [of example_runtime ?evs example_server _ 0 "[]" init_state
      "ListenError ''EMFILE''" answers_ok "''/tmp/proj''" example_server _ undefined] g t r example_start
  show ?thesis
    by (simp add: example_running_def getServer_def example_server_def)
qed

subsection \<open>stopServer\<close>

lemma stopServer_held:
  "server s = Some srv \<Longrightarrow>
   stopServer s = (log ''info'' ''Server stopped'' (kill (process srv) s))\<lparr>server := None\<rparr>"
  by (simp add: stopServer_def)

lemma stopServer_empty: "server s = None \<Longrightarrow> stopServer s = s"
  by (simp add: stopServer_def)

lemma kill_fields [simp]:
  "server (kill pid s) = server s"
  "next_pid (kill pid s) = next_pid s"
  "sockets (kill pid s) = sockets s"
  "tasks (kill pid s) = tasks s"
  "next_tid (kill pid s) = next_tid s"
  "trace (kill pid s) = trace s @ [Kill pid]"
  by (simp_all add: kill_def split: option.splits)

lemma kill_flags:
  "procs s pid = Some c \<Longrightarrow> \<not> exited c \<Longrightarrow> process_killed (kill pid s) pid"
  by (simp add: kill_def process_killed_def)

lemma quiet_step:
  assumes "server s = None" and "tasks s = Map.empty" and "quiet ev"
  shows "server (step w s ev) = None \<and> tasks (step w s ev) = Map.empty
    \<and> next_pid (step w s ev) = next_pid s"
proof (cases ev)
  case (CallStart dir)
  with assms show ?thesis by (simp add: quiet_def)
next
  case CallStop
  with assms show ?thesis by (simp add: stopServer_empty)
next
  case (PortDone tid os)
  with assms show ?thesis by (simp add: resume_port_def)
next
  case (ReadyDone tid net)
  with assms show ?thesis by (simp add: resume_ready_def)
next
  case (ProcExit pid code)
  with assms have "code = Some 0" by (simp add: quiet_def)
  with ProcExit assms show ?thesis
    by (simp add: proc_exit_def on_exit_def exit_cleared_def split: option.splits)
qed

lemma quiet_run:
  "server s = None \<Longrightarrow> tasks s = Map.empty \<Longrightarrow> \<forall>ev\<in>set evs. quiet ev \<Longrightarrow>
   server (run w s evs) = None \<and> tasks (run w s evs) = Map.empty
     \<and> next_pid (run w s evs) = next_pid s"
proof (induction evs arbitrary: s)
  case Nil
  then show ?case by (simp add: run_def)
next
  case (Cons ev evs)
  from Cons.prems have q: "quiet ev" by simp
  from quiet_step [OF Cons.prems(1,2) q, of w]
  have "server (run w (step w s ev) evs) = None \<and> tasks (run w (step w s ev) evs) = Map.empty
     \<and> next_pid (run w (step w s ev) evs) = next_pid (step w s ev)"
    using Cons.prems(3) by (intro Cons.IH) simp_all
  with quiet_step [OF Cons.prems(1,2) q, of w] show ?case
    by (simp add: run_def)
qed

text \<open>
  Claim C3 (the code departs from it). \<open>stopServer\<close> calls \<open>kill\<close> on the child and
  clears the slot, and \<open>getServer\<close> returns null right after. But \<open>kill\<close> ends the
  child with a signal, so that its exit is reported with a null code; for the exit
  handler that is a code other than 0, and it restarts the server. Once the new child
  answers, the slot holds a new instance and a second child has been spawned, with no
  call of \<open>startServer\<close> by anyone. The run: the example is running, \<open>stopServer\<close> is
  called, the killed child 0 reports its exit with code null, and the child of the
  restart answers the first probe.
\<close>

theorem stop_is_followed_by_restart:
  "getServer (run example_runtime example_running [CallStop]) = None
   \<and> process_killed (run example_runtime example_running [CallStop]) 0
   \<and> getServer (run example_runtime example_running
        [CallStop, ProcExit 0 None, ReadyDone 1 answers_ok])
      = Some \<lparr>process = 1, client = ''http://127.0.0.1:4096'',
               clientV2 = ''http://127.0.0.1:4096'', port = Finite 4096,
               directory = ''/tmp/proj''\<rparr>
   \<and> next_pid (run example_runtime example_running
        [CallStop, ProcExit 0 None, ReadyDone 1 answers_ok]) = 2
   \<and> trace (run example_runtime example_running
        [CallStop, ProcExit 0 None, ReadyDone 1 answers_ok])
      = trace example_running @
        [Kill 0, Log ''info'' ''Server stopped'', Log ''info'' ''Server exited'',
         Log ''info'' ''Restarting server'', Access ''/tmp/proj'',
         Log ''info'' ''Starting opencode serve'', Spawn 1,
         Fetch ''http://127.0.0.1:4096/session'' 2000 (Response 200),
         Log ''info'' ''Server ready'']"
  by (simp add: getServer_def example_running_eq run_defs spawned_child_def
      waitForServer_from.simps answers_ok_def example_defs)

text \<open>
  \<open>stopServer\<close> tests the slot, not the child: when the slot holds an instance whose
  child has exited, it still calls \<open>kill\<close> and clears the slot.
\<close>

lemma stopServer_tests_the_slot:
  "getServer example_stale = Some example_server
   \<and> map_option exited (procs example_stale 0) = Some True
   \<and> getServer (stopServer example_stale) = None
   \<and> trace (stopServer example_stale)
       = trace example_stale @ [Kill 0, Log ''info'' ''Server stopped'']"
proof -
  have stale: "server example_stale = Some example_server
      \<and> map_option exited (procs example_stale 0) = Some True"
    by (simp add: example_stale_def run_defs spawned_child_def
        waitForServer_from.simps answers_ok_def example_defs example_server_def)
  then have "getServer (stopServer example_stale) = None
   \<and> trace (stopServer example_stale)
       = trace example_stale @ [Kill 0, Log ''info'' ''Server stopped'']"
    by (simp add: stopServer_held getServer_def example_server_def)
  with stale show ?thesis
    by (simp add: getServer_def)
qed

text \<open>
  What \<open>stopServer\<close> does on every path: with an instance in the slot it calls \<open>kill\<close>
  on the child and clears the slot; if no call of \<open>startServer\<close> is in flight, the slot
  then stays empty and nothing is spawned for as long as no \<open>startServer\<close> is called and
  every exit that is reported has code 0. With an empty slot it changes nothing.
\<close>

lemma stop_clears_slot:
  "(server s = Some srv \<longrightarrow>
      getServer (stopServer s) = None
      \<and> trace (stopServer s) = trace s @ [Kill (process srv), Log ''info'' ''Server stopped'']
      \<and> (\<forall>c. procs s (process srv) = Some c \<and> \<not> exited c \<longrightarrow>
            process_killed (stopServer s) (process srv)))
   \<and> (server s = Some srv \<and> tasks s = Map.empty \<and> (\<forall>ev\<in>set evs. quiet ev) \<longrightarrow>
      getServer (run w (stopServer s) evs) = None
      \<and> next_pid (run w (stopServer s) evs) = next_pid s)
   \<and> (server s = None \<longrightarrow> stopServer s = s)"
proof (intro conjI impI allI)
  assume "server s = Some srv"
  then show "getServer (stopServer s) = None"
    and "trace (stopServer s) = trace s @ [Kill (process srv), Log ''info'' ''Server stopped'']"
    by (simp_all add: stopServer_held getServer_def)
next
  fix c
  assume "server s = Some srv" and "procs s (process srv) = Some c \<and> \<not> exited c"
  then show "process_killed (stopServer s) (process srv)"
    by (simp add: stopServer_held kill_flags process_killed_def [of "_\<lparr>server := None\<rparr>"]
        process_killed_def [of "kill _ _", symmetric])
next
  assume a: "server s = Some srv \<and> tasks s = Map.empty \<and> (\<forall>ev\<in>set evs. quiet ev)"
  then have "server (stopServer s) = None" "tasks (stopServer s) = Map.empty"
    "next_pid (stopServer s) = next_pid s"
    by (simp_all add: stopServer_held)
  with a quiet_run [of "stopServer s" evs w]
  show "getServer (run w (stopServer s) evs) = None"
    and "next_pid (run w (stopServer s) evs) = next_pid s"
    by (simp_all add: getServer_def)
next
  assume "server s = None"
  then show "stopServer s = s" by (rule stopServer_empty)
qed

lemma stop_clears_slot_example:
  "getServer (stopServer example_running) = None
   \<and> trace (stopServer example_running)
       = trace example_running @ [Kill 0, Log ''info'' ''Server stopped'']
   \<and> process_killed (stopServer example_running) 0
   \<and> getServer (run example_runtime (stopServer example_running)
        [ProcExit 0 (Some 0), CallStop, ReadyDone 1 answers_ok]) = None
   \<and> next_pid (run example_runtime (stopServer example_running)
        [ProcExit 0 (Some 0), CallStop, ReadyDone 1 answers_ok]) = 1
   \<and> stopServer init_state = init_state"
proof -
  have c: "procs example_running (process example_server)
      = Some (spawned_child example_runtime ''/tmp/proj'' (Finite 4096))
    \<and> \<not> exited (spawned_child example_runtime ''/tmp/proj'' (Finite 4096))"
    by (simp add: example_running_eq example_server_def spawned_child_def)
  have t: "tasks example_running = Map.empty"
    by (simp add: example_running_eq)
  have q: "\<forall>ev\<in>set [ProcExit 0 (Some 0), CallStop, ReadyDone 1 answers_ok]. quiet ev"
    by (simp add: quiet_def)
  have n: "next_pid example_running = 1"
    by (simp add: example_running_eq)
  have i: "server init_state = None"
    by (simp add: init_state_def)
  from stop_clears_slot [of example_running example_server
      "[ProcExit 0 (Some 0), CallStop, ReadyDone 1 answers_ok]" example_runtime]
    stop_clears_slot [of init_state example_server "[]" example_runtime]
    example_running_server c t q n i
  show ?thesis
    by (simp add: example_server_def)
qed

subsection \<open>The exit handler restarts in the directory of the child\<close>

lemma dir_inv_frame [simp]:
  "dir_inv (s\<lparr>next_tid := n\<rparr>) = dir_inv s"
  "dir_inv (s\<lparr>trace := tr\<rparr>) = dir_inv s"
  "dir_inv (s\<lparr>sockets := k\<rparr>) = dir_inv s"
  "dir_inv (emit es s) = dir_inv s"
  "dir_inv (log l m s) = dir_inv s"
  by (simp_all add: dir_inv_def)

lemma dir_inv_clear: "dir_inv s \<Longrightarrow> dir_inv (s\<lparr>server := None\<rparr>)"
  by (simp add: dir_inv_def)

lemma dir_inv_flags:
  assumes "dir_inv s" and "procs s pid = Some c" and "cwd c' = cwd c"
  shows "dir_inv (s\<lparr>procs := (procs s)(pid \<mapsto> c')\<rparr>)"
  using assms unfolding dir_inv_def by auto force+

lemma dir_inv_spawned:
  assumes "dir_inv s"
  shows "dir_inv (s\<lparr>procs := (procs s)(next_pid s \<mapsto> spawned_child w dir p),
                    next_pid := Suc (next_pid s)\<rparr>)"
proof -
  from assms have fresh: "procs s (next_pid s) = None"
    by (cases "procs s (next_pid s)") (auto simp: dir_inv_def)
  with assms show ?thesis
    unfolding dir_inv_def by (auto simp: less_Suc_eq) force+
qed

lemma dir_inv_begin:
  assumes "dir_inv s" and "startServer_begin w s dir = (r, s1)"
  shows "dir_inv s1
    \<and> (\<forall>srv. r = Returned srv \<longrightarrow> server s1 = Some srv)
    \<and> (\<forall>p pid. r = AwaitingReady p pid \<longrightarrow> map_option cwd (procs s1 pid) = Some dir)"
proof (cases "reusable s")
  case (Some srv)
  with assms show ?thesis
    by (auto simp: startServer_begin_reuse dest: reusable_SomeD)
next
  case None
  show ?thesis
  proof (cases "accessSync w dir")
    case False
    with None assms show ?thesis
      by (auto simp: startServer_begin_inaccessible)
  next
    case True
    show ?thesis
    proof (cases "env_port w")
      case (Some p)
      from assms(1) have "dir_inv (emit [Access dir, Log ''info'' ''Starting opencode serve'',
          Spawn (next_pid s)] s)" by simp
      from dir_inv_spawned [OF this, of w dir p] None True Some assms(2) show ?thesis
        by (auto simp: startServer_begin_env_port spawned_child_def)
    next
      case no_env: None
      with None True assms show ?thesis
        by (auto simp: startServer_begin_allocate)
    qed
  qed
qed

lemma dir_inv_port:
  assumes "dir_inv s" and "startServer_port w s dir os = (r, s1)"
  shows "dir_inv s1
    \<and> (\<forall>srv. r \<noteq> Returned srv)
    \<and> (\<forall>p pid. r = AwaitingReady p pid \<longrightarrow> map_option cwd (procs s1 pid) = Some dir)"
proof (cases os)
  case (ListenError e)
  with assms show ?thesis
    by (auto simp: startServer_port_refused)
next
  case (Listening a)
  show ?thesis
  proof (cases "\<exists>p. a = AddressInfo p")
    case True
    then obtain p where a: "a = AddressInfo p" by blast
    from assms(1) have "dir_inv (emit [NetListen, NetClose, Log ''info'' ''Starting opencode serve'',
          Spawn (next_pid s)] s)" by simp
    from dir_inv_spawned [OF this, of w dir p] a Listening assms(2) show ?thesis
      by (auto simp: startServer_port_spawn spawned_child_def)
  next
    case False
    then have "getOpenPort (Listening a) s =
      (Inl (Error ''Failed to get port''), (emit [NetListen] s)\<lparr>sockets := sockets s + 1\<rparr>)"
      by (intro getOpenPort_no_address) simp
    with Listening assms show ?thesis
      by (auto simp: startServer_port_def)
  qed
qed

lemma dir_inv_ready:
  assumes "dir_inv s" and "map_option cwd (procs s pid) = Some dir"
    and "startServer_ready w s dir p pid net = (r, s1)"
  shows "dir_inv s1
    \<and> (\<forall>srv. r = Returned srv \<longrightarrow> server s1 = Some srv)
    \<and> r \<noteq> AwaitingPort \<and> (\<forall>q x. r \<noteq> AwaitingReady q x)"
proof -
  from startServer_ready_cases [OF assms(3)] show ?thesis
  proof (elim disjE exE conjE)
    fix e es
    assume "r = Thrown e" "waitForServer w p 30 net = (Inl e, es)"
    with assms show ?thesis by (auto simp: startServer_ready_timeout)
  next
    fix es
    assume r: "r = Returned \<lparr>process = pid, client = base_url w p, clientV2 = base_url w p,
                port = p, directory = dir\<rparr>"
      and w: "waitForServer w p 30 net = (Inr True, es)"
    from w assms(3) have "s1 = (emit (es @ [Log ''info'' ''Server ready'']) s)
        \<lparr>server := Some \<lparr>process = pid, client = base_url w p, clientV2 = base_url w p,
                port = p, directory = dir\<rparr>\<rparr>"
      by (simp add: startServer_ready_ok)
    with r assms(1,2) show ?thesis
      by (auto simp: dir_inv_def)
  qed
qed

lemma dir_inv_settle:
  assumes "dir_inv s1"
    and "\<forall>srv. r = Returned srv \<longrightarrow> server s1 = Some srv"
    and "\<forall>p pid. r = AwaitingReady p pid \<longrightarrow> map_option cwd (procs s1 pid) = Some dir"
  shows "dir_inv (settle tid d dir (r, s1))"
  using assms by (cases r) (auto simp: settle_def dir_inv_def Let_def)

lemma dir_inv_launch: "dir_inv s \<Longrightarrow> dir_inv (launch w d dir s)"
proof -
  assume i: "dir_inv s"
  obtain r s1 where b: "startServer_begin w (s\<lparr>next_tid := Suc (next_tid s)\<rparr>) dir = (r, s1)"
    by (cases "startServer_begin w (s\<lparr>next_tid := Suc (next_tid s)\<rparr>) dir")
  from i have "dir_inv (s\<lparr>next_tid := Suc (next_tid s)\<rparr>)" by simp
  from dir_inv_begin [OF this b] show ?thesis
    unfolding launch_def b by (intro dir_inv_settle) auto
qed

lemma dir_inv_stop: "dir_inv s \<Longrightarrow> dir_inv (stopServer s)"
proof (cases "server s")
  case None
  assume "dir_inv s"
  with None show ?thesis by (simp add: stopServer_empty)
next
  case (Some srv)
  assume i: "dir_inv s"
  with Some obtain c where c: "procs s (process srv) = Some c" by (auto simp: dir_inv_def)
  from dir_inv_flags [OF i c, of "c\<lparr>killed := \<not> exited c \<or> killed c\<rparr>"]
  have "dir_inv (s\<lparr>procs := (procs s)(process srv \<mapsto> c\<lparr>killed := \<not> exited c \<or> killed c\<rparr>)\<rparr>)"
    by simp
  then have "dir_inv ((log ''info'' ''Server stopped'' (kill (process srv) s))\<lparr>server := None\<rparr>)"
    using c by (intro dir_inv_clear) (simp add: kill_def emit_def log_def)
  with Some show ?thesis
    by (simp add: stopServer_held)
qed

lemma dir_inv_exit: "dir_inv s \<Longrightarrow> dir_inv (proc_exit w pid code s)"
proof (cases "procs s pid")
  case None
  assume "dir_inv s"
  with None show ?thesis by (simp add: proc_exit_def)
next
  case (Some c)
  assume i: "dir_inv s"
  from dir_inv_flags [OF i Some, of "c\<lparr>exited := True\<rparr>"]
  have "dir_inv (s\<lparr>procs := (procs s)(pid \<mapsto> c\<lparr>exited := True\<rparr>)\<rparr>)" by simp
  then have "dir_inv (exit_cleared (s\<lparr>procs := (procs s)(pid \<mapsto> c\<lparr>exited := True\<rparr>)\<rparr>))"
    unfolding exit_cleared_def by (intro dir_inv_clear) simp
  with i Some show ?thesis
    by (simp add: proc_exit_def on_exit_def Let_def dir_inv_launch)
qed

lemma dir_inv_resume_port: "dir_inv s \<Longrightarrow> dir_inv (resume_port w tid os s)"
proof -
  assume i: "dir_inv s"
  show ?thesis
  proof (cases "tasks s tid")
    case None
    with i show ?thesis by (simp add: resume_port_def)
  next
    case (Some t)
    show ?thesis
    proof (cases "t_phase t")
      case AwaitPort
      obtain r s1 where p: "startServer_port w s (t_directory t) os = (r, s1)"
        by (cases "startServer_port w s (t_directory t) os")
      from dir_inv_port [OF i p] have "dir_inv (settle tid (t_detached t) (t_directory t) (r, s1))"
        by (intro dir_inv_settle) auto
      with Some AwaitPort p show ?thesis by (simp add: resume_port_def)
    next
      case (AwaitReady p pid)
      with Some i show ?thesis by (simp add: resume_port_def)
    qed
  qed
qed

lemma dir_inv_resume_ready: "dir_inv s \<Longrightarrow> dir_inv (resume_ready w tid net s)"
proof -
  assume i: "dir_inv s"
  show ?thesis
  proof (cases "tasks s tid")
    case None
    with i show ?thesis by (simp add: resume_ready_def)
  next
    case (Some t)
    show ?thesis
    proof (cases "t_phase t")
      case AwaitPort
      with Some i show ?thesis by (simp add: resume_ready_def)
    next
      case (AwaitReady p pid)
      with i Some have sp: "map_option cwd (procs s pid) = Some (t_directory t)"
        by (auto simp: dir_inv_def)
      obtain r s1 where p: "startServer_ready w s (t_directory t) p pid net = (r, s1)"
        by (cases "startServer_ready w s (t_directory t) p pid net")
      from dir_inv_ready [OF i sp p]
      have "dir_inv (settle tid (t_detached t) (t_directory t) (r, s1))"
        by (intro dir_inv_settle) auto
      with Some AwaitReady p show ?thesis by (simp add: resume_ready_def)
    qed
  qed
qed

lemma dir_inv_step: "dir_inv s \<Longrightarrow> dir_inv (step w s ev)"
  by (cases ev)
     (simp_all add: dir_inv_launch dir_inv_stop dir_inv_resume_port dir_inv_resume_ready
       dir_inv_exit)

lemma dir_inv_run: "dir_inv s \<Longrightarrow> dir_inv (run w s evs)"
  unfolding run_def by (induction evs arbitrary: s) (simp_all add: dir_inv_step)

lemma dir_inv_init: "dir_inv init_state"
  by (simp add: dir_inv_def init_state_def)

lemma run_append: "run w s (xs @ ys) = run w (run w s xs) ys"
  by (simp add: run_def)

lemma run_Cons: "run w s (ev # evs) = run w (step w s ev) evs"
  by (simp add: run_def)

lemma run_Nil: "run w s [] = s"
  by (simp add: run_def)

text \<open>The first segment of a call never touches the slot, and neither does its hand-over.\<close>

lemma startServer_begin_server: "server (snd (startServer_begin w s dir)) = server s"
proof (cases "reusable s")
  case (Some srv)
  then show ?thesis by (simp add: startServer_begin_reuse)
next
  case None
  then show ?thesis
    by (cases "accessSync w dir"; cases "env_port w")
       (simp_all add: startServer_begin_inaccessible startServer_begin_env_port
         startServer_begin_allocate)
qed

lemma settle_server: "server (settle tid d dir (r, s)) = server s"
  by (cases r) (simp_all add: settle_def Let_def)

lemma launch_server: "server (launch w d dir s) = server s"
proof -
  obtain r s1 where b: "startServer_begin w (s\<lparr>next_tid := Suc (next_tid s)\<rparr>) dir = (r, s1)"
    by (cases "startServer_begin w (s\<lparr>next_tid := Suc (next_tid s)\<rparr>) dir")
  with startServer_begin_server [of w "s\<lparr>next_tid := Suc (next_tid s)\<rparr>" dir]
  show ?thesis by (simp add: launch_def settle_server)
qed

text \<open>What a call begun by the exit handler does in its first segment.\<close>

lemma launch_detached_inaccessible:
  "reusable s = None \<Longrightarrow> \<not> accessSync w dir \<Longrightarrow>
   launch w True dir s =
     (emit [Access dir, Log ''error'' ''Failed to restart server''] s)
       \<lparr>tasks := (tasks s)(next_tid s := None), next_tid := Suc (next_tid s)\<rparr>"
  by (simp add: launch_def startServer_begin_inaccessible settle_def log_def emit_def Let_def)

lemma launch_env_port:
  "reusable s = None \<Longrightarrow> accessSync w dir \<Longrightarrow> env_port w = Some p \<Longrightarrow>
   launch w d dir s =
     (emit [Access dir, Log ''info'' ''Starting opencode serve'', Spawn (next_pid s)] s)
       \<lparr>procs := (procs s)(next_pid s \<mapsto> spawned_child w dir p),
        next_pid := Suc (next_pid s),
        tasks := (tasks s)(next_tid s \<mapsto>
          \<lparr>t_directory = dir, t_detached = d, t_phase = AwaitReady p (next_pid s)\<rparr>),
        next_tid := Suc (next_tid s)\<rparr>"
  by (simp add: launch_def startServer_begin_env_port settle_def emit_def)

lemma launch_allocate:
  "reusable s = None \<Longrightarrow> accessSync w dir \<Longrightarrow> env_port w = None \<Longrightarrow>
   launch w d dir s =
     (emit [Access dir] s)
       \<lparr>tasks := (tasks s)(next_tid s \<mapsto>
          \<lparr>t_directory = dir, t_detached = d, t_phase = AwaitPort\<rparr>),
        next_tid := Suc (next_tid s)\<rparr>"
  by (simp add: launch_def startServer_begin_allocate settle_def emit_def)

text \<open>Nothing is handed to a caller by a call that the exit handler began.\<close>

lemma settle_detached_quiet:
  "filter is_Settle (trace (settle tid True dir (r, s))) = filter is_Settle (trace s)"
  by (cases r) (simp_all add: settle_def Let_def is_Settle_def)

lemma filter_quiet: "\<forall>e\<in>set es. \<not> is_Settle e \<Longrightarrow> filter is_Settle es = []"
  by (induction es) simp_all

lemma startServer_begin_quiet:
  "filter is_Settle (trace (snd (startServer_begin w s dir))) = filter is_Settle (trace s)"
proof (cases "reusable s")
  case (Some srv)
  then show ?thesis by (simp add: startServer_begin_reuse is_Settle_def)
next
  case None
  then show ?thesis
    by (cases "accessSync w dir"; cases "env_port w")
       (simp_all add: startServer_begin_inaccessible startServer_begin_env_port
         startServer_begin_allocate is_Settle_def)
qed

lemma startServer_port_quiet:
  "filter is_Settle (trace (snd (startServer_port w s dir os))) = filter is_Settle (trace s)"
proof (cases os)
  case (ListenError e)
  then show ?thesis by (simp add: startServer_port_refused is_Settle_def)
next
  case (Listening a)
  show ?thesis
  proof (cases "\<exists>p. a = AddressInfo p")
    case True
    with Listening show ?thesis by (auto simp: startServer_port_spawn is_Settle_def)
  next
    case False
    then have "getOpenPort (Listening a) s =
      (Inl (Error ''Failed to get port''), (emit [NetListen] s)\<lparr>sockets := sockets s + 1\<rparr>)"
      by (intro getOpenPort_no_address) simp
    with Listening show ?thesis by (simp add: startServer_port_def is_Settle_def)
  qed
qed

lemma startServer_ready_quiet:
  "filter is_Settle (trace (snd (startServer_ready w s dir p pid net))) = filter is_Settle (trace s)"
proof -
  have "filter is_Settle (snd (waitForServer w p 30 net)) = []"
    unfolding waitForServer_def by (intro filter_quiet waitForServer_from_quiet)
  then show ?thesis
    by (simp add: startServer_ready_frame is_Settle_def split: sum.splits)
qed

lemma launch_detached_quiet:
  "filter is_Settle (trace (launch w True dir s)) = filter is_Settle (trace s)"
proof -
  obtain r s1 where b: "startServer_begin w (s\<lparr>next_tid := Suc (next_tid s)\<rparr>) dir = (r, s1)"
    by (cases "startServer_begin w (s\<lparr>next_tid := Suc (next_tid s)\<rparr>) dir")
  with startServer_begin_quiet [of w "s\<lparr>next_tid := Suc (next_tid s)\<rparr>" dir]
  show ?thesis by (simp add: launch_def settle_detached_quiet)
qed

lemma proc_exit_quiet:
  "filter is_Settle (trace (proc_exit w pid code s)) = filter is_Settle (trace s)"
  by (simp add: proc_exit_def on_exit_def exit_cleared_def Let_def launch_detached_quiet
      is_Settle_def split: option.splits)

lemma resume_port_detached_quiet:
  assumes "tasks s tid = Some t" and "t_detached t"
  shows "filter is_Settle (trace (resume_port w tid os s)) = filter is_Settle (trace s)"
proof (cases "t_phase t")
  case AwaitPort
  obtain r s1 where p: "startServer_port w s (t_directory t) os = (r, s1)"
    by (cases "startServer_port w s (t_directory t) os")
  with startServer_port_quiet [of w s "t_directory t" os] assms AwaitPort show ?thesis
    by (simp add: resume_port_def settle_detached_quiet)
next
  case (AwaitReady p pid)
  with assms show ?thesis by (simp add: resume_port_def)
qed

lemma resume_ready_detached_quiet:
  assumes "tasks s tid = Some t" and "t_detached t"
  shows "filter is_Settle (trace (resume_ready w tid net s)) = filter is_Settle (trace s)"
proof (cases "t_phase t")
  case AwaitPort
  with assms show ?thesis by (simp add: resume_ready_def)
next
  case (AwaitReady p pid)
  obtain r s1 where p: "startServer_ready w s (t_directory t) p pid net = (r, s1)"
    by (cases "startServer_ready w s (t_directory t) p pid net")
  with startServer_ready_quiet [of w s "t_directory t" p pid net] assms AwaitReady show ?thesis
    by (simp add: resume_ready_def settle_detached_quiet)
qed

text \<open>A restart that fails at one of its awaits is logged, and the slot is left alone.\<close>

lemma resume_ready_detached_failure:
  assumes "tasks s tid = Some t" and "t_detached t" and "t_phase t = AwaitReady p pid"
    and "waitForServer w p 30 net = (Inl e, es)"
  shows "resume_ready w tid net s =
     (emit (es @ [Log ''error'' ''Failed to restart server'']) s)\<lparr>tasks := (tasks s)(tid := None)\<rparr>"
  using assms
  by (simp add: resume_ready_def startServer_ready_timeout settle_def Let_def log_def emit_def)

lemma resume_port_detached_failure:
  assumes "tasks s tid = Some t" and "t_detached t" and "t_phase t = AwaitPort"
  shows "resume_port w tid (ListenError x) s =
     (emit [NetListen, Log ''error'' ''Failed to restart server''] s)\<lparr>tasks := (tasks s)(tid := None)\<rparr>"
  using assms
  by (simp add: resume_port_def startServer_port_refused settle_def Let_def log_def emit_def)

lemma reusable_empty: "server s = None \<Longrightarrow> reusable s = None"
  by (simp add: reusable_def)

lemma state_eqI:
  fixes a b :: state
  assumes "server a = server b" "procs a = procs b" "next_pid a = next_pid b"
    "sockets a = sockets b" "tasks a = tasks b" "next_tid a = next_tid b" "trace a = trace b"
  shows "a = b"
  using assms by (intro state.equality) simp_all

lemma proc_exit_clean:
  "procs s pid = Some c \<Longrightarrow> \<not> exited c \<Longrightarrow>
   proc_exit w pid (Some 0) s =
     (emit [Log ''info'' ''Server exited''] s)
       \<lparr>server := None, procs := (procs s)(pid \<mapsto> c\<lparr>exited := True\<rparr>)\<rparr>"
  by (intro state_eqI) (simp_all add: proc_exit_def on_exit_def exit_cleared_def)

lemma proc_exit_crash:
  assumes "procs s pid = Some c" and "\<not> exited c" and "code \<noteq> Some 0"
  shows "proc_exit w pid code s =
     launch w True (cwd c)
       ((emit [Log ''info'' ''Server exited'', Log ''info'' ''Restarting server''] s)
          \<lparr>server := None, procs := (procs s)(pid \<mapsto> c\<lparr>exited := True\<rparr>)\<rparr>)"
proof -
  have "log ''info'' ''Restarting server''
          (exit_cleared (s\<lparr>procs := (procs s)(pid \<mapsto> c\<lparr>exited := True\<rparr>)\<rparr>))
      = (emit [Log ''info'' ''Server exited'', Log ''info'' ''Restarting server''] s)
          \<lparr>server := None, procs := (procs s)(pid \<mapsto> c\<lparr>exited := True\<rparr>)\<rparr>"
    by (intro state_eqI) (simp_all add: exit_cleared_def)
  with assms show ?thesis
    by (simp add: proc_exit_def on_exit_def Let_def)
qed

lemma waitForServer_first_ok:
  "status_ok (net 0) \<Longrightarrow>
   waitForServer w p 30 net = (Inr True, [Fetch (session_url w p) 2000 (net 0)])"
  by (simp add: waitForServer_def waitForServer_from.simps [of w p 30 net 0])

text \<open>One crash and the restart that follows it, when the new child answers at once.\<close>

lemma crash_cycle:
  assumes c: "procs s pid = Some c" "\<not> exited c" "cwd c = dir"
    and w: "accessSync w dir" "env_port w = Some p"
    and code: "code \<noteq> Some 0" and net: "status_ok (net 0)"
  shows "run w s [ProcExit pid code, ReadyDone (next_tid s) net] =
     (emit [Log ''info'' ''Server exited'', Log ''info'' ''Restarting server'', Access dir,
            Log ''info'' ''Starting opencode serve'', Spawn (next_pid s),
            Fetch (session_url w p) 2000 (net 0), Log ''info'' ''Server ready''] s)
       \<lparr>server := Some \<lparr>process = next_pid s, client = base_url w p, clientV2 = base_url w p,
                         port = p, directory = dir\<rparr>,
        procs := (procs s)(pid \<mapsto> c\<lparr>exited := True\<rparr>, next_pid s \<mapsto> spawned_child w dir p),
        next_pid := Suc (next_pid s),
        tasks := (tasks s)(next_tid s := None),
        next_tid := Suc (next_tid s)\<rparr>"
proof -
  let ?s0 = "(emit [Log ''info'' ''Server exited'', Log ''info'' ''Restarting server''] s)
          \<lparr>server := None, procs := (procs s)(pid \<mapsto> c\<lparr>exited := True\<rparr>)\<rparr>"
  let ?task = "\<lparr>t_directory = dir, t_detached = True, t_phase = AwaitReady p (next_pid s)\<rparr>"
  let ?s1 = "(emit [Log ''info'' ''Server exited'', Log ''info'' ''Restarting server'', Access dir,
            Log ''info'' ''Starting opencode serve'', Spawn (next_pid s)] s)
       \<lparr>server := None,
        procs := (procs s)(pid \<mapsto> c\<lparr>exited := True\<rparr>, next_pid s \<mapsto> spawned_child w dir p),
        next_pid := Suc (next_pid s),
        tasks := (tasks s)(next_tid s \<mapsto> ?task),
        next_tid := Suc (next_tid s)\<rparr>"
  let ?srv = "\<lparr>process = next_pid s, client = base_url w p, clientV2 = base_url w p,
                port = p, directory = dir\<rparr>"
  have "reusable ?s0 = None" by (simp add: reusable_empty)
  from launch_env_port [OF this w, of True] have "launch w True dir ?s0 = ?s1"
    by (intro state_eqI) simp_all
  with c code have 1: "step w s (ProcExit pid code) = ?s1"
    by (simp add: proc_exit_crash)
  have t: "tasks ?s1 (next_tid s) = Some ?task" by simp
  from net have "waitForServer w p 30 net = (Inr True, [Fetch (session_url w p) 2000 (net 0)])"
    by (rule waitForServer_first_ok)
  then have "startServer_ready w ?s1 dir p (next_pid s) net =
     (Returned ?srv,
      (emit ([Fetch (session_url w p) 2000 (net 0)] @ [Log ''info'' ''Server ready'']) ?s1)
        \<lparr>server := Some ?srv\<rparr>)"
    by (rule startServer_ready_ok)
  with t have "step w ?s1 (ReadyDone (next_tid s) net) =
      ((emit ([Fetch (session_url w p) 2000 (net 0)] @ [Log ''info'' ''Server ready'']) ?s1)
        \<lparr>server := Some ?srv\<rparr>)\<lparr>tasks := (tasks ?s1)(next_tid s := None)\<rparr>"
    by (simp add: resume_ready_def settle_def Let_def)
  with 1 show ?thesis
    by (simp add: run_def)
qed

text \<open>Crash after crash: the \<open>n\<close>-th restart is performed like the first.\<close>

lemma crash_loop_run:
  assumes w: "accessSync w dir" "env_port w = Some p"
    and net: "status_ok (net 0)" and codes: "\<forall>k<n. codes k \<noteq> Some 0"
    and c: "procs s pid = Some c" "\<not> exited c" "cwd c = dir"
    and s: "server s = Some \<lparr>process = pid, client = base_url w p, clientV2 = base_url w p,
                         port = p, directory = dir\<rparr>"
      "next_pid s = Suc pid" "next_tid s = tid"
  shows "server (run w s (crash_loop pid tid codes net n))
       = Some \<lparr>process = pid + n, client = base_url w p, clientV2 = base_url w p,
                port = p, directory = dir\<rparr>
    \<and> (\<exists>c'. procs (run w s (crash_loop pid tid codes net n)) (pid + n) = Some c'
            \<and> \<not> exited c' \<and> cwd c' = dir)
    \<and> next_pid (run w s (crash_loop pid tid codes net n)) = Suc (pid + n)
    \<and> next_tid (run w s (crash_loop pid tid codes net n)) = tid + n"
  using codes
proof (induction n)
  case 0
  with c s show ?case by (simp add: run_Nil)
next
  case (Suc n)
  let ?sn = "run w s (crash_loop pid tid codes net n)"
  from Suc have IH: "server ?sn = Some \<lparr>process = pid + n, client = base_url w p,
        clientV2 = base_url w p, port = p, directory = dir\<rparr>"
    "next_pid ?sn = Suc (pid + n)" "next_tid ?sn = tid + n"
    by simp_all
  from Suc obtain c' where c': "procs ?sn (pid + n) = Some c'" "\<not> exited c'" "cwd c' = dir"
    by auto
  from Suc.prems have code: "codes n \<noteq> Some 0" by simp
  from crash_cycle [where net = net, OF c' w code net] IH
  have "run w ?sn [ProcExit (pid + n) (codes n), ReadyDone (tid + n) net] =
     (emit [Log ''info'' ''Server exited'', Log ''info'' ''Restarting server'', Access dir,
            Log ''info'' ''Starting opencode serve'', Spawn (Suc (pid + n)),
            Fetch (session_url w p) 2000 (net 0), Log ''info'' ''Server ready''] ?sn)
       \<lparr>server := Some \<lparr>process = Suc (pid + n), client = base_url w p, clientV2 = base_url w p,
                         port = p, directory = dir\<rparr>,
        procs := (procs ?sn)(pid + n \<mapsto> c'\<lparr>exited := True\<rparr>,
                   Suc (pid + n) \<mapsto> spawned_child w dir p),
        next_pid := Suc (Suc (pid + n)),
        tasks := (tasks ?sn)(tid + n := None),
        next_tid := Suc (tid + n)\<rparr>"
    by simp
  then show ?case
    by (simp add: run_append spawned_child_def)
qed

lemma exit_step_clean:
  assumes "procs s pid = Some c" and "\<not> exited c"
  shows "step w s (ProcExit pid (Some 0)) =
     (emit [Log ''info'' ''Server exited''] s)
       \<lparr>server := None, procs := (procs s)(pid \<mapsto> c\<lparr>exited := True\<rparr>)\<rparr>"
  using assms by (simp add: proc_exit_clean)

lemma exit_step_server:
  assumes "procs s pid = Some c" and "\<not> exited c"
  shows "getServer (step w s (ProcExit pid code)) = None"
proof (cases "code = Some 0")
  case True
  with assms show ?thesis by (simp add: proc_exit_clean getServer_def)
next
  case False
  with assms show ?thesis by (simp add: proc_exit_crash launch_server getServer_def)
qed

lemma exit_step_inaccessible:
  assumes "procs s pid = Some c" and "\<not> exited c" and "code \<noteq> Some 0"
    and "\<not> accessSync w (cwd c)"
  shows "trace (step w s (ProcExit pid code)) =
       trace s @ [Log ''info'' ''Server exited'', Log ''info'' ''Restarting server'',
                  Access (cwd c), Log ''error'' ''Failed to restart server'']
    \<and> next_pid (step w s (ProcExit pid code)) = next_pid s
    \<and> sockets (step w s (ProcExit pid code)) = sockets s"
proof -
  let ?s0 = "(emit [Log ''info'' ''Server exited'', Log ''info'' ''Restarting server''] s)
          \<lparr>server := None, procs := (procs s)(pid \<mapsto> c\<lparr>exited := True\<rparr>)\<rparr>"
  have "reusable ?s0 = None" by (simp add: reusable_empty)
  from launch_detached_inaccessible [OF this assms(4)] assms(1-3) show ?thesis
    by (simp add: proc_exit_crash)
qed

lemma exit_step_restart:
  assumes "procs s pid = Some c" and "\<not> exited c" and "code \<noteq> Some 0"
    and "accessSync w (cwd c)"
  shows "(\<exists>t. tasks (step w s (ProcExit pid code)) (next_tid s) = Some t
           \<and> t_directory t = cwd c \<and> t_detached t
           \<and> (t_phase t = AwaitPort \<longleftrightarrow> env_port w = None))
    \<and> (\<exists>es. trace (step w s (ProcExit pid code)) =
           trace s @ [Log ''info'' ''Server exited'', Log ''info'' ''Restarting server'',
                      Access (cwd c)] @ es)"
proof -
  let ?s0 = "(emit [Log ''info'' ''Server exited'', Log ''info'' ''Restarting server''] s)
          \<lparr>server := None, procs := (procs s)(pid \<mapsto> c\<lparr>exited := True\<rparr>)\<rparr>"
  have r: "reusable ?s0 = None" by (simp add: reusable_empty)
  show ?thesis
  proof (cases "env_port w")
    case None
    from launch_allocate [OF r assms(4) None, of True] assms(1-3) None show ?thesis
      by (simp add: proc_exit_crash)
  next
    case (Some p)
    from launch_env_port [OF r assms(4) Some, of True] assms(1-3) Some show ?thesis
      by (simp add: proc_exit_crash)
  qed
qed

lemma held_directory:
  "getServer (run w init_state evs) = Some srv \<Longrightarrow>
   map_option cwd (procs (run w init_state evs) (process srv)) = Some (directory srv)"
  using dir_inv_run [OF dir_inv_init, of w evs] by (simp add: dir_inv_def getServer_def)

lemma detached_ready_failure:
  assumes "tasks s tid = Some t" and "t_detached t" and "t_phase t = AwaitReady p cpid"
    and "waitForServer w p 30 net = (Inl e, es)"
  shows "server (step w s (ReadyDone tid net)) = server s
    \<and> trace (step w s (ReadyDone tid net)) = trace s @ es @ [Log ''error'' ''Failed to restart server'']"
  using assms by (simp add: resume_ready_detached_failure)

lemma detached_port_failure:
  assumes "tasks s tid = Some t" and "t_detached t" and "t_phase t = AwaitPort"
  shows "server (step w s (PortDone tid (ListenError x))) = server s
    \<and> trace (step w s (PortDone tid (ListenError x)))
        = trace s @ [NetListen, Log ''error'' ''Failed to restart server'']"
  using assms by (simp add: resume_port_detached_failure)

text \<open>A crash whose restart fails at its await leaves the slot empty.\<close>

lemma crash_failed_restart:
  assumes c: "procs s pid = Some c" "\<not> exited c" and code: "code \<noteq> Some 0"
    and a: "accessSync w (cwd c)"
  shows "(env_port w = Some p \<and> waitForServer w p 30 net = (Inl e, es) \<longrightarrow>
            getServer (run w s [ProcExit pid code, ReadyDone (next_tid s) net]) = None)
    \<and> (env_port w = None \<longrightarrow>
            getServer (run w s [ProcExit pid code, PortDone (next_tid s) (ListenError x)]) = None)"
proof (intro conjI impI)
  let ?s0 = "(emit [Log ''info'' ''Server exited'', Log ''info'' ''Restarting server''] s)
          \<lparr>server := None, procs := (procs s)(pid \<mapsto> c\<lparr>exited := True\<rparr>)\<rparr>"
  have r: "reusable ?s0 = None" by (simp add: reusable_empty)
  {
    assume "env_port w = Some p \<and> waitForServer w p 30 net = (Inl e, es)"
    then have port: "env_port w = Some p" and wait: "waitForServer w p 30 net = (Inl e, es)"
      by simp_all
    let ?t = "\<lparr>t_directory = cwd c, t_detached = True, t_phase = AwaitReady p (next_pid s)\<rparr>"
    let ?s1 = "step w s (ProcExit pid code)"
    from launch_env_port [OF r a port, of True] c code
    have "tasks ?s1 (next_tid s) = Some ?t" and "server ?s1 = None"
      by (simp_all add: proc_exit_crash)
    with resume_ready_detached_failure [of ?s1 "next_tid s" ?t p "next_pid s" w net e es] wait
    show "getServer (run w s [ProcExit pid code, ReadyDone (next_tid s) net]) = None"
      by (simp add: run_def getServer_def)
  next
    assume port: "env_port w = None"
    let ?t = "\<lparr>t_directory = cwd c, t_detached = True, t_phase = AwaitPort\<rparr>"
    let ?s1 = "step w s (ProcExit pid code)"
    from launch_allocate [OF r a port, of True] c code
    have "tasks ?s1 (next_tid s) = Some ?t" and "server ?s1 = None"
      by (simp_all add: proc_exit_crash)
    with resume_port_detached_failure [of ?s1 "next_tid s" ?t w x]
    show "getServer (run w s [ProcExit pid code, PortDone (next_tid s) (ListenError x)]) = None"
      by (simp add: run_def getServer_def)
  }
qed

text \<open>
  Claim C4. When a child that has not exited before reports its exit, the handler first
  clears the slot. With code 0 that is all it does. With any other code (null for a
  signal included) it then calls \<open>startServer\<close> again with the directory in which the
  child was started, on a state whose slot is empty, so that the call runs the whole
  procedure from the directory check on; for the child of the held instance that
  directory is the directory of the instance. Nothing counts the restarts: \<open>n\<close> crashes
  in a row lead to \<open>n\<close> restarts, for every \<open>n\<close>. An error of the restarted call, thrown
  at once or at one of its awaits, is logged and nothing else: the slot is left as it is,
  so that it is empty after a crash and a failed restart, and no event of a restarted
  call hands anything to a caller.
\<close>

theorem exit_handler_restarts:
  "(procs s pid = Some c \<and> \<not> exited c \<longrightarrow>
      step w s (ProcExit pid (Some 0)) =
        (emit [Log ''info'' ''Server exited''] s)
          \<lparr>server := None, procs := (procs s)(pid \<mapsto> c\<lparr>exited := True\<rparr>)\<rparr>
      \<and> (code \<noteq> Some 0 \<longrightarrow>
            step w s (ProcExit pid code) =
              launch w True (cwd c)
                ((emit [Log ''info'' ''Server exited'', Log ''info'' ''Restarting server''] s)
                   \<lparr>server := None, procs := (procs s)(pid \<mapsto> c\<lparr>exited := True\<rparr>)\<rparr>))
      \<and> getServer (step w s (ProcExit pid code)) = None
      \<and> filter is_Settle (trace (step w s (ProcExit pid code))) = filter is_Settle (trace s)
      \<and> (code \<noteq> Some 0 \<and> accessSync w (cwd c) \<longrightarrow>
            (\<exists>t. tasks (step w s (ProcExit pid code)) (next_tid s) = Some t
                \<and> t_directory t = cwd c \<and> t_detached t
                \<and> (t_phase t = AwaitPort \<longleftrightarrow> env_port w = None))
            \<and> (\<exists>es. trace (step w s (ProcExit pid code)) =
                  trace s @ [Log ''info'' ''Server exited'', Log ''info'' ''Restarting server'',
                             Access (cwd c)] @ es))
      \<and> (code \<noteq> Some 0 \<and> \<not> accessSync w (cwd c) \<longrightarrow>
            trace (step w s (ProcExit pid code)) =
              trace s @ [Log ''info'' ''Server exited'', Log ''info'' ''Restarting server'',
                         Access (cwd c), Log ''error'' ''Failed to restart server'']
            \<and> next_pid (step w s (ProcExit pid code)) = next_pid s
            \<and> sockets (step w s (ProcExit pid code)) = sockets s))
   \<and> (getServer (run w init_state evs) = Some srv \<longrightarrow>
        map_option cwd (procs (run w init_state evs) (process srv)) = Some (directory srv))
   \<and> (tasks s tid = Some t \<and> t_detached t \<longrightarrow>
        filter is_Settle (trace (step w s (PortDone tid os))) = filter is_Settle (trace s)
        \<and> filter is_Settle (trace (step w s (ReadyDone tid net))) = filter is_Settle (trace s)
        \<and> (t_phase t = AwaitReady p cpid \<and> waitForServer w p 30 net = (Inl e, es) \<longrightarrow>
              server (step w s (ReadyDone tid net)) = server s
              \<and> trace (step w s (ReadyDone tid net))
                  = trace s @ es @ [Log ''error'' ''Failed to restart server''])
        \<and> (t_phase t = AwaitPort \<longrightarrow>
              server (step w s (PortDone tid (ListenError x))) = server s
              \<and> trace (step w s (PortDone tid (ListenError x)))
                  = trace s @ [NetListen, Log ''error'' ''Failed to restart server'']))
   \<and> (accessSync w dir \<and> env_port w = Some q \<and> status_ok (ok 0) \<and> (\<forall>k<n. codes k \<noteq> Some 0)
       \<and> procs s0 pid0 = Some c0 \<and> \<not> exited c0 \<and> cwd c0 = dir
       \<and> server s0 = Some \<lparr>process = pid0, client = base_url w q, clientV2 = base_url w q,
                            port = q, directory = dir\<rparr>
       \<and> next_pid s0 = Suc pid0 \<and> next_tid s0 = tid0 \<longrightarrow>
        getServer (run w s0 (crash_loop pid0 tid0 codes ok n))
          = Some \<lparr>process = pid0 + n, client = base_url w q, clientV2 = base_url w q,
                   port = q, directory = dir\<rparr>
        \<and> next_pid (run w s0 (crash_loop pid0 tid0 codes ok n)) = Suc (pid0 + n))
   \<and> (procs s pid = Some c \<and> \<not> exited c \<and> code \<noteq> Some 0 \<and> accessSync w (cwd c) \<longrightarrow>
        (env_port w = Some p \<and> waitForServer w p 30 net = (Inl e, es) \<longrightarrow>
           getServer (run w s [ProcExit pid code, ReadyDone (next_tid s) net]) = None)
        \<and> (env_port w = None \<longrightarrow>
           getServer (run w s [ProcExit pid code, PortDone (next_tid s) (ListenError x)]) = None))"
proof -
  have exit: "procs s pid = Some c \<and> \<not> exited c \<longrightarrow>
      step w s (ProcExit pid (Some 0)) =
        (emit [Log ''info'' ''Server exited''] s)
          \<lparr>server := None, procs := (procs s)(pid \<mapsto> c\<lparr>exited := True\<rparr>)\<rparr>
      \<and> (code \<noteq> Some 0 \<longrightarrow>
            step w s (ProcExit pid code) =
              launch w True (cwd c)
                ((emit [Log ''info'' ''Server exited'', Log ''info'' ''Restarting server''] s)
                   \<lparr>server := None, procs := (procs s)(pid \<mapsto> c\<lparr>exited := True\<rparr>)\<rparr>))
      \<and> getServer (step w s (ProcExit pid code)) = None
      \<and> filter is_Settle (trace (step w s (ProcExit pid code))) = filter is_Settle (trace s)
      \<and> (code \<noteq> Some 0 \<and> accessSync w (cwd c) \<longrightarrow>
            (\<exists>t. tasks (step w s (ProcExit pid code)) (next_tid s) = Some t
                \<and> t_directory t = cwd c \<and> t_detached t
                \<and> (t_phase t = AwaitPort \<longleftrightarrow> env_port w = None))
            \<and> (\<exists>es. trace (step w s (ProcExit pid code)) =
                  trace s @ [Log ''info'' ''Server exited'', Log ''info'' ''Restarting server'',
                             Access (cwd c)] @ es))
      \<and> (code \<noteq> Some 0 \<and> \<not> accessSync w (cwd c) \<longrightarrow>
            trace (step w s (ProcExit pid code)) =
              trace s @ [Log ''info'' ''Server exited'', Log ''info'' ''Restarting server'',
                         Access (cwd c), Log ''error'' ''Failed to restart server'']
            \<and> next_pid (step w s (ProcExit pid code)) = next_pid s
            \<and> sockets (step w s (ProcExit pid code)) = sockets s)"
  proof (intro impI)
    assume "procs s pid = Some c \<and> \<not> exited c"
    then have c: "procs s pid = Some c" "\<not> exited c" by simp_all
    have 1: "step w s (ProcExit pid (Some 0)) =
        (emit [Log ''info'' ''Server exited''] s)
          \<lparr>server := None, procs := (procs s)(pid \<mapsto> c\<lparr>exited := True\<rparr>)\<rparr>"
      by (rule exit_step_clean [OF c])
    have 2: "code \<noteq> Some 0 \<longrightarrow>
            step w s (ProcExit pid code) =
              launch w True (cwd c)
                ((emit [Log ''info'' ''Server exited'', Log ''info'' ''Restarting server''] s)
                   \<lparr>server := None, procs := (procs s)(pid \<mapsto> c\<lparr>exited := True\<rparr>)\<rparr>)"
      using proc_exit_crash [OF c, of code w] by simp
    have 3: "getServer (step w s (ProcExit pid code)) = None"
      by (rule exit_step_server [OF c])
    have 4: "filter is_Settle (trace (step w s (ProcExit pid code))) = filter is_Settle (trace s)"
      by (simp add: proc_exit_quiet)
    note 5 = exit_step_restart [OF c, of code w]
    note 6 = exit_step_inaccessible [OF c, of code w]
    from 1 2 3 4 5 6 show "step w s (ProcExit pid (Some 0)) =
        (emit [Log ''info'' ''Server exited''] s)
          \<lparr>server := None, procs := (procs s)(pid \<mapsto> c\<lparr>exited := True\<rparr>)\<rparr>
      \<and> (code \<noteq> Some 0 \<longrightarrow>
            step w s (ProcExit pid code) =
              launch w True (cwd c)
                ((emit [Log ''info'' ''Server exited'', Log ''info'' ''Restarting server''] s)
                   \<lparr>server := None, procs := (procs s)(pid \<mapsto> c\<lparr>exited := True\<rparr>)\<rparr>))
      \<and> getServer (step w s (ProcExit pid code)) = None
      \<and> filter is_Settle (trace (step w s (ProcExit pid code))) = filter is_Settle (trace s)
      \<and> (code \<noteq> Some 0 \<and> accessSync w (cwd c) \<longrightarrow>
            (\<exists>t. tasks (step w s (ProcExit pid code)) (next_tid s) = Some t
                \<and> t_directory t = cwd c \<and> t_detached t
                \<and> (t_phase t = AwaitPort \<longleftrightarrow> env_port w = None))
            \<and> (\<exists>es. trace (step w s (ProcExit pid code)) =
                  trace s @ [Log ''info'' ''Server exited'', Log ''info'' ''Restarting server'',
                             Access (cwd c)] @ es))
      \<and> (code \<noteq> Some 0 \<and> \<not> accessSync w (cwd c) \<longrightarrow>
            trace (step w s (ProcExit pid code)) =
              trace s @ [Log ''info'' ''Server exited'', Log ''info'' ''Restarting server'',
                         Access (cwd c), Log ''error'' ''Failed to restart server'']
            \<and> next_pid (step w s (ProcExit pid code)) = next_pid s
            \<and> sockets (step w s (ProcExit pid code)) = sockets s)"
      by blast
  qed
  have held: "getServer (run w init_state evs) = Some srv \<longrightarrow>
        map_option cwd (procs (run w init_state evs) (process srv)) = Some (directory srv)"
    using held_directory [of w evs srv] by blast
  have detached: "tasks s tid = Some t \<and> t_detached t \<longrightarrow>
        filter is_Settle (trace (step w s (PortDone tid os))) = filter is_Settle (trace s)
        \<and> filter is_Settle (trace (step w s (ReadyDone tid net))) = filter is_Settle (trace s)
        \<and> (t_phase t = AwaitReady p cpid \<and> waitForServer w p 30 net = (Inl e, es) \<longrightarrow>
              server (step w s (ReadyDone tid net)) = server s
              \<and> trace (step w s (ReadyDone tid net))
                  = trace s @ es @ [Log ''error'' ''Failed to restart server''])
        \<and> (t_phase t = AwaitPort \<longrightarrow>
              server (step w s (PortDone tid (ListenError x))) = server s
              \<and> trace (step w s (PortDone tid (ListenError x)))
                  = trace s @ [NetListen, Log ''error'' ''Failed to restart server''])"
  proof (intro impI)
    assume "tasks s tid = Some t \<and> t_detached t"
    then have t: "tasks s tid = Some t" "t_detached t" by simp_all
    from resume_port_detached_quiet [OF t, of w os] resume_ready_detached_quiet [OF t, of w net]
      detached_ready_failure [OF t, of p cpid w net e es] detached_port_failure [OF t, of w x]
    show "filter is_Settle (trace (step w s (PortDone tid os))) = filter is_Settle (trace s)
        \<and> filter is_Settle (trace (step w s (ReadyDone tid net))) = filter is_Settle (trace s)
        \<and> (t_phase t = AwaitReady p cpid \<and> waitForServer w p 30 net = (Inl e, es) \<longrightarrow>
              server (step w s (ReadyDone tid net)) = server s
              \<and> trace (step w s (ReadyDone tid net))
                  = trace s @ es @ [Log ''error'' ''Failed to restart server''])
        \<and> (t_phase t = AwaitPort \<longrightarrow>
              server (step w s (PortDone tid (ListenError x))) = server s
              \<and> trace (step w s (PortDone tid (ListenError x)))
                  = trace s @ [NetListen, Log ''error'' ''Failed to restart server''])"
      by simp
  qed
  have loop: "accessSync w dir \<and> env_port w = Some q \<and> status_ok (ok 0) \<and> (\<forall>k<n. codes k \<noteq> Some 0)
       \<and> procs s0 pid0 = Some c0 \<and> \<not> exited c0 \<and> cwd c0 = dir
       \<and> server s0 = Some \<lparr>process = pid0, client = base_url w q, clientV2 = base_url w q,
                            port = q, directory = dir\<rparr>
       \<and> next_pid s0 = Suc pid0 \<and> next_tid s0 = tid0 \<longrightarrow>
        getServer (run w s0 (crash_loop pid0 tid0 codes ok n))
          = Some \<lparr>process = pid0 + n, client = base_url w q, clientV2 = base_url w q,
                   port = q, directory = dir\<rparr>
        \<and> next_pid (run w s0 (crash_loop pid0 tid0 codes ok n)) = Suc (pid0 + n)"
  proof (intro impI)
    assume a: "accessSync w dir \<and> env_port w = Some q \<and> status_ok (ok 0) \<and> (\<forall>k<n. codes k \<noteq> Some 0)
       \<and> procs s0 pid0 = Some c0 \<and> \<not> exited c0 \<and> cwd c0 = dir
       \<and> server s0 = Some \<lparr>process = pid0, client = base_url w q, clientV2 = base_url w q,
                            port = q, directory = dir\<rparr>
       \<and> next_pid s0 = Suc pid0 \<and> next_tid s0 = tid0"
    then have "server (run w s0 (crash_loop pid0 tid0 codes ok n))
       = Some \<lparr>process = pid0 + n, client = base_url w q, clientV2 = base_url w q,
                port = q, directory = dir\<rparr>
      \<and> (\<exists>c'. procs (run w s0 (crash_loop pid0 tid0 codes ok n)) (pid0 + n) = Some c'
            \<and> \<not> exited c' \<and> cwd c' = dir)
      \<and> next_pid (run w s0 (crash_loop pid0 tid0 codes ok n)) = Suc (pid0 + n)
      \<and> next_tid (run w s0 (crash_loop pid0 tid0 codes ok n)) = tid0 + n"
      by (intro crash_loop_run [where c = c0]) simp_all
    then show "getServer (run w s0 (crash_loop pid0 tid0 codes ok n))
          = Some \<lparr>process = pid0 + n, client = base_url w q, clientV2 = base_url w q,
                   port = q, directory = dir\<rparr>
        \<and> next_pid (run w s0 (crash_loop pid0 tid0 codes ok n)) = Suc (pid0 + n)"
      by (simp add: getServer_def)
  qed
  have failed: "procs s pid = Some c \<and> \<not> exited c \<and> code \<noteq> Some 0 \<and> accessSync w (cwd c) \<longrightarrow>
        (env_port w = Some p \<and> waitForServer w p 30 net = (Inl e, es) \<longrightarrow>
           getServer (run w s [ProcExit pid code, ReadyDone (next_tid s) net]) = None)
        \<and> (env_port w = None \<longrightarrow>
           getServer (run w s [ProcExit pid code, PortDone (next_tid s) (ListenError x)]) = None)"
    using crash_failed_restart [of s pid c code w p net e es x] by blast
  from exit held detached loop failed show ?thesis by (intro conjI)
qed

lemma example_child:
  "procs example_running 0 = Some (spawned_child example_runtime ''/tmp/proj'' (Finite 4096))"
  "\<not> exited (spawned_child example_runtime ''/tmp/proj'' (Finite 4096))"
  "cwd (spawned_child example_runtime ''/tmp/proj'' (Finite 4096)) = ''/tmp/proj''"
  by (simp_all add: example_running_eq spawned_child_def)

lemma example_env_port: "env_port example_runtime = Some (Finite 4096)"
  by (simp add: env_port_Some_iff example_runtime_def test_runtime_def decimal_Number_examples)

lemma example_crashed_task:
  "tasks example_crashed 1 =
     Some \<lparr>t_directory = ''/tmp/proj'', t_detached = True, t_phase = AwaitReady (Finite 4096) 1\<rparr>"
proof -
  let ?s0 = "(emit [Log ''info'' ''Server exited'', Log ''info'' ''Restarting server''] example_running)
      \<lparr>server := None,
        procs := (procs example_running)(0 \<mapsto>
          (spawned_child example_runtime ''/tmp/proj'' (Finite 4096))\<lparr>exited := True\<rparr>)\<rparr>"
  have r: "reusable ?s0 = None" by (simp add: reusable_empty)
  have a: "accessSync example_runtime ''/tmp/proj''"
    by (simp add: example_runtime_def example_accessible)
  have n: "next_tid example_running = 1" "next_pid example_running = 1"
    by (simp_all add: example_running_eq)
  from launch_env_port [OF r a example_env_port, of True] n show ?thesis
    by (simp add: example_crashed_def proc_exit_crash [OF example_child(1,2)] example_child(3))
qed

lemma example_no_listener:
  "waitForServer example_runtime (Finite 4096) 30 no_listener =
     (Inl (Error (timeout_message example_runtime (Finite 4096) 30)),
      failed_attempts example_runtime (Finite 4096) no_listener 0 30)"
  unfolding waitForServer_def
  by (intro waitForServer_from_timeout) (simp_all add: no_listener_def status_ok_def)

theorem exit_handler_restarts_witness:
  "getServer (step example_runtime example_running (ProcExit 0 (Some 1))) = None
   \<and> (\<exists>t. tasks (step example_runtime example_running (ProcExit 0 (Some 1))) 1 = Some t
          \<and> t_directory t = ''/tmp/proj'' \<and> t_detached t \<and> t_phase t \<noteq> AwaitPort)
   \<and> map_option cwd (procs example_running 0) = Some ''/tmp/proj''
   \<and> getServer (run example_runtime example_running
        [ProcExit 0 (Some 1), ReadyDone 1 answers_ok, ProcExit 1 None, ReadyDone 2 answers_ok])
      = Some \<lparr>process = 2, client = ''http://127.0.0.1:4096'', clientV2 = ''http://127.0.0.1:4096'',
               port = Finite 4096, directory = ''/tmp/proj''\<rparr>
   \<and> next_pid (run example_runtime example_running
        [ProcExit 0 (Some 1), ReadyDone 1 answers_ok, ProcExit 1 None, ReadyDone 2 answers_ok]) = 3
   \<and> server (step example_runtime example_crashed (ReadyDone 1 no_listener)) = server example_crashed
   \<and> filter is_Settle (trace (step example_runtime example_crashed (ReadyDone 1 no_listener)))
      = filter is_Settle (trace example_crashed)
   \<and> trace (step example_runtime example_crashed (ReadyDone 1 no_listener))
      = trace example_crashed @ failed_attempts example_runtime (Finite 4096) no_listener 0 30
          @ [Log ''error'' ''Failed to restart server'']
   \<and> trace (step unreadable_runtime example_running (ProcExit 0 (Some 1)))
      = trace example_running @
          [Log ''info'' ''Server exited'', Log ''info'' ''Restarting server'',
           Access ''/tmp/proj'', Log ''error'' ''Failed to restart server'']
   \<and> getServer (run example_runtime example_running [ProcExit 0 (Some 1), ReadyDone 1 no_listener])
      = None"
proof -
  let ?c = "spawned_child example_runtime ''/tmp/proj'' (Finite 4096)"
  let ?t = "\<lparr>t_directory = ''/tmp/proj'', t_detached = True, t_phase = AwaitReady (Finite 4096) 1\<rparr>"
  have a: "accessSync example_runtime ''/tmp/proj''"
    by (simp add: example_runtime_def example_accessible)
  have n: "next_tid example_running = 1" "next_pid example_running = Suc 0"
    by (simp_all add: example_running_eq)
  have srv: "server example_running = Some \<lparr>process = 0,
      client = base_url example_runtime (Finite 4096),
      clientV2 = base_url example_runtime (Finite 4096), port = Finite 4096,
      directory = ''/tmp/proj''\<rparr>"
    by (simp add: example_running_eq example_defs)
  have g: "getServer (run example_runtime init_state
      [CallStart ''/tmp/proj'', ReadyDone 0 (\<lambda>_. Response 200)]) = Some example_server"
    using example_running_server by (simp add: getServer_def example_running_def)
  have ok: "status_ok (answers_ok 0)"
    by (simp add: answers_ok_def status_ok_def)
  have codes: "\<forall>k<2. example_codes k \<noteq> Some 0"
    by (simp add: example_codes_def)
  have loop: "crash_loop 0 1 example_codes answers_ok 2 =
      [ProcExit 0 (Some 1), ReadyDone 1 answers_ok, ProcExit 1 None, ReadyDone 2 answers_ok]"
    by (simp add: numeral_2_eq_2 example_codes_def)
  note first = exit_handler_restarts [where s = example_running and pid = 0 and c = ?c
      and w = example_runtime and code = "Some 1", THEN conjunct1]
  have ne: "(Some 1 :: int option) \<noteq> Some 0" by simp
  have acc: "accessSync example_runtime (cwd ?c)"
    by (simp add: example_child a)
  from first example_child(1,2) ne acc
  have raw: "getServer (step example_runtime example_running (ProcExit 0 (Some 1))) = None
    \<and> (\<exists>t. tasks (step example_runtime example_running (ProcExit 0 (Some 1)))
            (next_tid example_running) = Some t
          \<and> t_directory t = cwd ?c \<and> t_detached t
          \<and> (t_phase t = AwaitPort \<longleftrightarrow> env_port example_runtime = None))"
    by blast
  then have 1: "getServer (step example_runtime example_running (ProcExit 0 (Some 1))) = None"
    by (rule conjunct1)
  from raw n example_env_port
  have 2: "\<exists>t. tasks (step example_runtime example_running (ProcExit 0 (Some 1))) 1 = Some t
          \<and> t_directory t = ''/tmp/proj'' \<and> t_detached t \<and> t_phase t \<noteq> AwaitPort"
    by (simp add: example_child)
  from exit_handler_restarts [where w = example_runtime and srv = example_server
      and evs = "[CallStart ''/tmp/proj'', ReadyDone 0 (\<lambda>_. Response 200)]",
      THEN conjunct2, THEN conjunct1] g
  have 3: "map_option cwd (procs example_running 0) = Some ''/tmp/proj''"
    by (simp add: example_running_def example_server_def)
  from exit_handler_restarts [where w = example_runtime and dir = "''/tmp/proj''" and q = "Finite 4096"
      and ok = answers_ok and n = 2 and codes = example_codes and ?s0.0 = example_running
      and ?pid0.0 = 0 and ?c0.0 = ?c and ?tid0.0 = 1,
      THEN conjunct2, THEN conjunct2, THEN conjunct2, THEN conjunct1]
    example_child a example_env_port ok codes srv n
  have 4: "getServer (run example_runtime example_running (crash_loop 0 1 example_codes answers_ok 2))
      = Some \<lparr>process = 0 + 2, client = base_url example_runtime (Finite 4096),
           clientV2 = base_url example_runtime (Finite 4096), port = Finite 4096,
           directory = ''/tmp/proj''\<rparr>
    \<and> next_pid (run example_runtime example_running (crash_loop 0 1 example_codes answers_ok 2))
      = Suc (0 + 2)"
    by blast
  have td: "t_detached ?t" "t_phase ?t = AwaitReady (Finite 4096) 1"
    by simp_all
  from exit_handler_restarts [where s = example_crashed and tid = 1 and t = ?t
      and w = example_runtime and net = no_listener and p = "Finite 4096" and cpid = 1
      and e = "Error (timeout_message example_runtime (Finite 4096) 30)"
      and es = "failed_attempts example_runtime (Finite 4096) no_listener 0 30"
      and os = "ListenError ''EMFILE''",
      THEN conjunct2, THEN conjunct2, THEN conjunct1]
    example_crashed_task td example_no_listener
  have 5: "server (step example_runtime example_crashed (ReadyDone 1 no_listener)) = server example_crashed
   \<and> filter is_Settle (trace (step example_runtime example_crashed (ReadyDone 1 no_listener)))
      = filter is_Settle (trace example_crashed)
   \<and> trace (step example_runtime example_crashed (ReadyDone 1 no_listener))
      = trace example_crashed @ failed_attempts example_runtime (Finite 4096) no_listener 0 30
          @ [Log ''error'' ''Failed to restart server'']"
    by blast
  have gone: "\<not> accessSync unreadable_runtime (cwd ?c)"
    by (simp add: unreadable_runtime_def)
  from exit_handler_restarts [where s = example_running and pid = 0 and c = ?c
      and w = unreadable_runtime and code = "Some 1", THEN conjunct1] example_child(1,2) ne gone
  have "trace (step unreadable_runtime example_running (ProcExit 0 (Some 1)))
      = trace example_running @
          [Log ''info'' ''Server exited'', Log ''info'' ''Restarting server'',
           Access (cwd ?c), Log ''error'' ''Failed to restart server'']"
    by blast
  then have 6: "trace (step unreadable_runtime example_running (ProcExit 0 (Some 1)))
      = trace example_running @
          [Log ''info'' ''Server exited'', Log ''info'' ''Restarting server'',
           Access ''/tmp/proj'', Log ''error'' ''Failed to restart server'']"
    by (simp add: example_child)
  have url: "base_url example_runtime (Finite 4096) = ''http://127.0.0.1:4096''"
    by (simp add: example_defs)
  from 4 have four: "getServer (run example_runtime example_running
        [ProcExit 0 (Some 1), ReadyDone 1 answers_ok, ProcExit 1 None, ReadyDone 2 answers_ok])
      = Some \<lparr>process = 2, client = ''http://127.0.0.1:4096'', clientV2 = ''http://127.0.0.1:4096'',
               port = Finite 4096, directory = ''/tmp/proj''\<rparr>
   \<and> next_pid (run example_runtime example_running
        [ProcExit 0 (Some 1), ReadyDone 1 answers_ok, ProcExit 1 None, ReadyDone 2 answers_ok]) = 3"
    unfolding loop url by simp
  from exit_handler_restarts [where s = example_running and pid = 0 and c = ?c
      and w = example_runtime and code = "Some 1" and p = "Finite 4096" and net = no_listener
      and e = "Error (timeout_message example_runtime (Finite 4096) 30)"
      and es = "failed_attempts example_runtime (Finite 4096) no_listener 0 30",
      THEN conjunct2, THEN conjunct2, THEN conjunct2, THEN conjunct2]
    example_child(1,2) ne acc example_env_port example_no_listener
  have "getServer (run example_runtime example_running
      [ProcExit 0 (Some 1), ReadyDone (next_tid example_running) no_listener]) = None"
    by blast
  with n have 7: "getServer (run example_runtime example_running
      [ProcExit 0 (Some 1), ReadyDone 1 no_listener]) = None"
    by simp
  from 1 2 3 four 5 6 7 show ?thesis
    by blast
qed

end
